theory Spec2Isabelle
  imports Main
begin

section \<open>Go values used by the package\<close>

text \<open>
  Three outcomes of a call: it returns, it panics, or it blocks for ever (a channel
  operation that no other task completes). Every function of the model that can panic or
  block returns a value of this type.
\<close>

datatype 'a go = Blocks | Panics | Returns 'a

text \<open>
  Go error values. \<open>EOF\<close> is \<open>io.EOF\<close> and \<open>ErrClosedPipe\<close> is \<open>io.ErrClosedPipe\<close>
  (two package-level values, compared by identity); \<open>ErrMsg m\<close> is \<open>&errMsg{m}\<close> of
  exchange.go; \<open>Errorf m\<close> is any other error whose message is \<open>m\<close> (\<open>fmt.Errorf\<close>, a
  transport error, a context error). A nil error is \<open>None\<close> of \<open>error option\<close>.
\<close>

datatype error = EOF | ErrClosedPipe | ErrMsg string | Errorf string

fun Error :: "error \<Rightarrow> string" where
  "Error EOF = ''EOF''"
| "Error ErrClosedPipe = ''io: read/write on closed pipe''"
| "Error (ErrMsg m) = m"
| "Error (Errorf m) = m"

text \<open>
  The values of type \<open>interface{}\<close> that travel through an exchange: the nil interface,
  a dataset (an opaque value of type \<open>'d\<close>) or an error. \<open>dataReq\<close> is the envelope
  \<open>type dataReq struct { Payload interface{} }\<close>.
\<close>

datatype 'd iface = NilValue | Dataset 'd | Err error

datatype 'd dataReq = DataReq (Payload: "'d iface")

subsection \<open>Buffered channels\<close>

text \<open>
  A Go channel as seen by one task while no other task runs: the buffered values, the
  capacity and whether the channel was closed. A send on a closed channel and a second
  close panic; a send on a full channel and a receive on an empty open channel block.
  A receive yields \<open>Some v\<close> for \<open>(v, true)\<close> and \<open>None\<close> for \<open>(zero, false)\<close>.
\<close>

record 'a chan =
  buf :: "'a list"
  cap :: nat
  is_closed :: bool

definition make_chan :: "nat \<Rightarrow> 'a chan" where
  "make_chan n = \<lparr>buf = [], cap = n, is_closed = False\<rparr>"

definition chan_send :: "'a chan \<Rightarrow> 'a \<Rightarrow> 'a chan go" where
  "chan_send c v =
     (if is_closed c then Panics
      else if length (buf c) < cap c then Returns (c\<lparr>buf := buf c @ [v]\<rparr>)
      else Blocks)"

definition chan_recv :: "'a chan \<Rightarrow> ('a option \<times> 'a chan) go" where
  "chan_recv c =
     (case buf c of
        v # rest \<Rightarrow> Returns (Some v, c\<lparr>buf := rest\<rparr>)
      | [] \<Rightarrow> if is_closed c then Returns (None, c) else Blocks)"

definition chan_close :: "'a chan \<Rightarrow> 'a chan go" where
  "chan_close c = (if is_closed c then Panics else Returns (c\<lparr>is_closed := True\<rparr>))"

section \<open>runner.go: PassThrough\<close>

text \<open>
  \<open>Returns\<close> of \<open>passthrough\<close>. The type \<open>Type\<close> and its value \<open>Wildcard\<close> are declared
  outside the files at hand, so \<open>Wildcard\<close> is a parameter.
\<close>

definition passthrough_Returns :: "'t \<Rightarrow> 't list" where
  "passthrough_Returns Wildcard = [Wildcard]"

text \<open>
  \<open>Run\<close> of \<open>passthrough\<close>: \<open>for data := range inp { out <- data }; return nil\<close>.
  The input stream is the list of datasets delivered before the close; the second
  argument is what has been sent on \<open>out\<close> so far. The result is the content of \<open>out\<close>
  and the returned error. The reader of \<open>out\<close> is taken to receive every dataset, so that
  no send blocks.
\<close>

fun passthrough_Run :: "'d list \<Rightarrow> 'd list \<Rightarrow> 'd list \<times> error option" where
  "passthrough_Run [] out = (out, None)"
| "passthrough_Run (data # inp) out = passthrough_Run inp (out @ [data])"

section \<open>exchange.go: the short-circuit\<close>

text \<open>
  \<open>type shortCircuit struct { C chan interface{}; Closed bool; all []interface{} }\<close>.
  The field \<open>all\<close> is never read or written and is left out. The channel carries the
  \<open>*dataReq\<close> envelopes the exchange encodes.
\<close>

record 'd shortCircuit =
  C :: "'d dataReq chan"
  Closed :: bool

definition newShortCircuit :: "'d shortCircuit" where
  "newShortCircuit = \<lparr>C = make_chan 1000, Closed = False\<rparr>"

definition shortCircuit_Close :: "'d shortCircuit \<Rightarrow> (error option \<times> 'd shortCircuit) go" where
  "shortCircuit_Close sc =
     (if Closed sc then Returns (None, sc)
      else (case chan_close (C sc) of
              Blocks \<Rightarrow> Blocks
            | Panics \<Rightarrow> Panics
            | Returns c' \<Rightarrow> Returns (None, sc\<lparr>Closed := True, C := c'\<rparr>)))"

definition shortCircuit_Encode ::
  "'d shortCircuit \<Rightarrow> 'd dataReq \<Rightarrow> (error option \<times> 'd shortCircuit) go" where
  "shortCircuit_Encode sc e =
     (if Closed sc then Returns (Some ErrClosedPipe, sc)
      else (case chan_send (C sc) e of
              Blocks \<Rightarrow> Blocks
            | Panics \<Rightarrow> Panics
            | Returns c' \<Rightarrow> Returns (None, sc\<lparr>C := c'\<rparr>)))"

text \<open>
  \<open>Decode\<close> fills the caller's envelope \<open>req\<close>: the result holds the error, the
  envelope after the call and the short-circuit after the call.
\<close>

definition shortCircuit_Decode ::
  "'d shortCircuit \<Rightarrow> 'd dataReq \<Rightarrow> (error option \<times> 'd dataReq \<times> 'd shortCircuit) go" where
  "shortCircuit_Decode sc req =
     (case chan_recv (C sc) of
        Blocks \<Rightarrow> Blocks
      | Panics \<Rightarrow> Panics
      | Returns (None, c') \<Rightarrow> Returns (Some EOF, req, sc\<lparr>C := c'\<rparr>)
      | Returns (Some v, c') \<Rightarrow> Returns (None, DataReq (Payload v), sc\<lparr>C := c'\<rparr>))"

text \<open>
  The short-circuits an exchange can hold are made by \<open>newShortCircuit\<close> and changed
  by the three methods only; in every such state the flag \<open>Closed\<close> tells whether the
  channel is closed.
\<close>

definition sc_wf :: "'d shortCircuit \<Rightarrow> bool" where
  "sc_wf sc = (Closed sc = is_closed (C sc))"

section \<open>exchange.go: the exchange\<close>

definition sendGather :: int where "sendGather = 1"
definition sendScatter :: int where "sendScatter = 2"
definition sendBroadcast :: int where "sendBroadcast = 3"
definition sendPartition :: int where "sendPartition = 4"

text \<open>
  \<open>type exchange struct\<close>. The elements of \<open>encs\<close>, \<open>decs\<close> and \<open>conns\<close> are Go
  interface values, that is references: the model keeps handles of types \<open>'e\<close>, \<open>'k\<close>
  and \<open>'c\<close> in the lists and threads one world \<open>'w\<close>, which holds the state behind
  all handles, through every call. The interface methods are parameters:
  \<open>encode :: 'e \<Rightarrow> 'd dataReq \<Rightarrow> 'w \<Rightarrow> (error option \<times> 'w) go\<close> and
  \<open>decode :: 'k \<Rightarrow> 'd dataReq \<Rightarrow> 'w \<Rightarrow> (error option \<times> 'd dataReq \<times> 'w) go\<close>
  (the envelope passed in, and the envelope as the call left it).
  The two cursors are 0 in a new exchange and afterwards a remainder modulo a length,
  so they are natural numbers.
\<close>

record ('e, 'k, 'c) exchange =
  UID :: string
  SendTo :: int
  encs :: "'e list"
  decs :: "'k list"
  conns :: "'c list"
  encsNext :: nat
  decsNext :: nat

text \<open>The constructors; the fresh random uid is a parameter.\<close>

definition new_exchange :: "string \<Rightarrow> int \<Rightarrow> ('e, 'k, 'c) exchange" where
  "new_exchange uid policy =
     \<lparr>UID = uid, SendTo = policy, encs = [], decs = [], conns = [],
      encsNext = 0, decsNext = 0\<rparr>"

definition Scatter :: "string \<Rightarrow> ('e, 'k, 'c) exchange" where
  "Scatter uid = new_exchange uid sendScatter"

definition Gather :: "string \<Rightarrow> ('e, 'k, 'c) exchange" where
  "Gather uid = new_exchange uid sendGather"

definition Broadcast :: "string \<Rightarrow> ('e, 'k, 'c) exchange" where
  "Broadcast uid = new_exchange uid sendBroadcast"

text \<open>The loop of \<open>EncodeAll\<close> over \<open>ex.encs\<close>; \<open>err\<close> is the last error seen.\<close>

fun EncodeAll_loop ::
  "('e \<Rightarrow> 'd dataReq \<Rightarrow> 'w \<Rightarrow> (error option \<times> 'w) go) \<Rightarrow> 'e list \<Rightarrow> 'd dataReq \<Rightarrow>
   error option \<Rightarrow> 'w \<Rightarrow> (error option \<times> 'w) go" where
  "EncodeAll_loop encode [] req err w = Returns (err, w)"
| "EncodeAll_loop encode (enc # rest) req err w =
     (case encode enc req w of
        Blocks \<Rightarrow> Blocks
      | Panics \<Rightarrow> Panics
      | Returns (err1, w') \<Rightarrow>
          EncodeAll_loop encode rest req (if err1 \<noteq> None then err1 else err) w')"

definition EncodeAll ::
  "('e \<Rightarrow> 'd dataReq \<Rightarrow> 'w \<Rightarrow> (error option \<times> 'w) go) \<Rightarrow> ('e, 'k, 'c) exchange \<Rightarrow>
   'd iface \<Rightarrow> 'w \<Rightarrow> (error option \<times> 'w) go" where
  "EncodeAll encode ex e w =
     (let e' = (case e of Err err \<Rightarrow> Err (ErrMsg (Error err)) | _ \<Rightarrow> e)
      in EncodeAll_loop encode (encs ex) (DataReq e') None w)"

definition EncodeNext ::
  "('e \<Rightarrow> 'd dataReq \<Rightarrow> 'w \<Rightarrow> (error option \<times> 'w) go) \<Rightarrow> ('e, 'k, 'c) exchange \<Rightarrow>
   'd iface \<Rightarrow> 'w \<Rightarrow> (error option \<times> ('e, 'k, 'c) exchange \<times> 'w) go" where
  "EncodeNext encode ex e w =
     (if length (encs ex) = 0 then Returns (Some ErrClosedPipe, ex, w)
      else
        let ex' = ex\<lparr>encsNext := (encsNext ex + 1) mod length (encs ex)\<rparr>
        in (case encode (encs ex' ! encsNext ex') (DataReq e) w of
              Blocks \<Rightarrow> Blocks
            | Panics \<Rightarrow> Panics
            | Returns (err, w') \<Rightarrow> Returns (err, ex', w')))"

definition EncodePartition ::
  "('e, 'k, 'c) exchange \<Rightarrow> 'd iface \<Rightarrow> 'w \<Rightarrow> (error option \<times> ('e, 'k, 'c) exchange \<times> 'w) go" where
  "EncodePartition ex e w = Returns (None, ex, w)"

text \<open>
  \<open>Send(data Dataset)\<close>. \<open>Dataset\<close> is an interface type, so the argument is a dataset
  or nil (\<open>None\<close>).
\<close>

definition iface_of_Dataset :: "'d option \<Rightarrow> 'd iface" where
  "iface_of_Dataset data = (case data of None \<Rightarrow> NilValue | Some d \<Rightarrow> Dataset d)"

definition Send ::
  "('e \<Rightarrow> 'd dataReq \<Rightarrow> 'w \<Rightarrow> (error option \<times> 'w) go) \<Rightarrow> ('e, 'k, 'c) exchange \<Rightarrow>
   'd option \<Rightarrow> 'w \<Rightarrow> (error option \<times> ('e, 'k, 'c) exchange \<times> 'w) go" where
  "Send encode ex data w =
     (if SendTo ex = sendScatter then EncodeNext encode ex (iface_of_Dataset data) w
      else if SendTo ex = sendPartition then EncodePartition ex (iface_of_Dataset data) w
      else (case EncodeAll encode ex (iface_of_Dataset data) w of
              Blocks \<Rightarrow> Blocks
            | Panics \<Rightarrow> Panics
            | Returns (err, w') \<Rightarrow> Returns (err, ex, w')))"

text \<open>
  \<open>DecodeNext\<close>. The result is the returned dataset (\<open>None\<close> for nil), the returned
  error, and the exchange and the world after the call. The type assertion
  \<open>data.(Dataset)\<close> of the last line panics on a nil payload.
\<close>

function DecodeNext ::
  "('k \<Rightarrow> 'd dataReq \<Rightarrow> 'w \<Rightarrow> (error option \<times> 'd dataReq \<times> 'w) go) \<Rightarrow>
   ('e, 'k, 'c) exchange \<Rightarrow> 'w \<Rightarrow>
   ('d option \<times> error option \<times> ('e, 'k, 'c) exchange \<times> 'w) go" where
  "DecodeNext decode ex w =
     (if length (decs ex) = 0 then Returns (None, Some EOF, ex, w)
      else
        let i = (decsNext ex + 1) mod length (decs ex)
        in (case decode (decs ex ! i) (DataReq NilValue) w of
              Blocks \<Rightarrow> Blocks
            | Panics \<Rightarrow> Panics
            | Returns (err0, req, w') \<Rightarrow>
                let data = Payload req;
                    err1 = (if err0 = None
                            then (case data of Err e \<Rightarrow> Some e | _ \<Rightarrow> None)
                            else err0);
                    err2 = (case err1 of
                              None \<Rightarrow> err1
                            | Some e \<Rightarrow> if Error e = Error EOF then Some EOF else err1)
                in if err2 = Some EOF then
                     DecodeNext decode
                       (ex\<lparr>decs := take i (decs ex) @ drop (i + 1) (decs ex)\<rparr>) w'
                   else if err2 \<noteq> None then Returns (None, err2, ex, w')
                   else (case data of
                           Dataset d \<Rightarrow> Returns (Some d, None, ex\<lparr>decsNext := i\<rparr>, w')
                         | _ \<Rightarrow> Panics)))"
  by pat_completeness auto
termination
proof (relation "measure (\<lambda>(decode, ex, w). length (decs ex))", goal_cases)
  case 1
  show ?case by simp
next
  case (2 decode ex w i)
  have "(decsNext ex + 1) mod length (decs ex) < length (decs ex)"
    using 2(1) by simp
  with 2(2) have "i < length (decs ex)"
    by simp
  then show ?case by simp
qed

declare DecodeNext.simps [simp del]

definition Receive ::
  "('k \<Rightarrow> 'd dataReq \<Rightarrow> 'w \<Rightarrow> (error option \<times> 'd dataReq \<times> 'w) go) \<Rightarrow>
   ('e, 'k, 'c) exchange \<Rightarrow> 'w \<Rightarrow>
   ('d option \<times> error option \<times> ('e, 'k, 'c) exchange \<times> 'w) go" where
  "Receive decode ex w = DecodeNext decode ex w"

text \<open>
  The task that \<open>Run\<close> starts to receive from the peers: it calls \<open>Receive\<close> until
  EOF or an error and sends every dataset on \<open>out\<close>. It is the only place of \<open>Run\<close>
  that sends on \<open>out\<close>. The third argument is what was sent on \<open>out\<close> so far; the result
  is the content of \<open>out\<close>, the value sent on \<open>errs\<close>, the exchange and the world.
  \<open>None\<close> is a task that never ends: \<open>Receive\<close> blocks, or the peers never stop sending.
\<close>

partial_function (option) Run_receive ::
  "('k \<Rightarrow> 'd dataReq \<Rightarrow> 'w \<Rightarrow> (error option \<times> 'd dataReq \<times> 'w) go) \<Rightarrow>
   ('e, 'k, 'c) exchange \<Rightarrow> 'w \<Rightarrow> 'd option list \<Rightarrow>
   ('d option list \<times> error option \<times> ('e, 'k, 'c) exchange \<times> 'w) go option" where
  "Run_receive decode ex w out =
     (case Receive decode ex w of
        Blocks \<Rightarrow> None
      | Panics \<Rightarrow> Some Panics
      | Returns (data, err, ex', w') \<Rightarrow>
          if err = Some EOF then Some (Returns (out, None, ex', w'))
          else if err \<noteq> None then Some (Returns (out, err, ex', w'))
          else Run_receive decode ex' w' (out @ [data]))"

subsection \<open>Init\<close>

text \<open>
  What \<open>Init\<close> puts into \<open>encs\<close>, \<open>decs\<close> and \<open>conns\<close>: a pointer to a short-circuit
  (an index into the list of all short-circuits allocated so far), or a connection
  \<open>'c\<close> wrapped as \<open>dbgEncoder{gob.NewEncoder(conn), msg}\<close>,
  \<open>dbgDecoder{gob.NewDecoder(conn), msg}\<close> or taken as it is.
\<close>

datatype 'c encoder = ScEncoder nat | DbgEncoder 'c string
datatype 'c decoder = ScDecoder nat | DbgDecoder 'c string
datatype 'c closer = ScCloser nat | ConnCloser 'c

text \<open>
  The four context values \<open>Init\<close> reads; \<open>None\<close> is a missing value, on which the type
  assertion panics. The distributer is its state \<open>'x\<close>; its method \<open>Connect\<close> is the
  parameter \<open>connect :: string \<Rightarrow> string \<Rightarrow> 'x \<Rightarrow> (error + 'c) \<times> 'x\<close>, which returns an
  error or a connection, and the distributer after the call.
\<close>

record 'x ctx =
  AllNodes :: "string list option"
  ThisNode :: "string option"
  MasterNode :: "string option"
  Distributer :: "'x option"

text \<open>
  The loop over \<open>targetNodes\<close>. Its state: the exchange, \<open>connsMap\<close>, the variable
  \<open>shortCircuit\<close> (\<open>None\<close> for nil), the short-circuits allocated so far and the
  distributer. The first component of the result is the error of an early return.
\<close>

fun Init_targets ::
  "(string \<Rightarrow> string \<Rightarrow> 'x \<Rightarrow> (error + 'c) \<times> 'x) \<Rightarrow> string \<Rightarrow> string list \<Rightarrow>
   ('c encoder, 'c decoder, 'c closer) exchange \<Rightarrow> (string \<rightharpoonup> 'c) \<Rightarrow> nat option \<Rightarrow>
   'd shortCircuit list \<Rightarrow> 'x \<Rightarrow>
   error option \<times> ('c encoder, 'c decoder, 'c closer) exchange \<times> (string \<rightharpoonup> 'c) \<times>
   nat option \<times> 'd shortCircuit list \<times> 'x" where
  "Init_targets connect thisNode [] ex connsMap sc scs x = (None, ex, connsMap, sc, scs, x)"
| "Init_targets connect thisNode (n # ns) ex connsMap sc scs x =
     (if n = thisNode then
        let p = length scs
        in Init_targets connect thisNode ns
             (ex\<lparr>conns := conns ex @ [ScCloser p], encs := encs ex @ [ScEncoder p]\<rparr>)
             connsMap (Some p) (scs @ [newShortCircuit]) x
      else
        let msg = ''THIS '' @ thisNode @ '' OTHER '' @ n
        in (case connect n (UID ex) x of
              (Inl err, x') \<Rightarrow> (Some err, ex, connsMap, sc, scs, x')
            | (Inr conn, x') \<Rightarrow>
                Init_targets connect thisNode ns
                  (ex\<lparr>conns := conns ex @ [ConnCloser conn],
                      encs := encs ex @ [DbgEncoder conn msg]\<rparr>)
                  (connsMap(n \<mapsto> conn)) sc scs x'))"

text \<open>The loop over \<open>allNodes\<close>, entered when \<open>shortCircuit\<close> is the pointer \<open>p\<close>.\<close>

fun Init_sources ::
  "(string \<Rightarrow> string \<Rightarrow> 'x \<Rightarrow> (error + 'c) \<times> 'x) \<Rightarrow> string \<Rightarrow> (string \<rightharpoonup> 'c) \<Rightarrow> nat \<Rightarrow>
   string list \<Rightarrow> ('c encoder, 'c decoder, 'c closer) exchange \<Rightarrow> 'x \<Rightarrow>
   error option \<times> ('c encoder, 'c decoder, 'c closer) exchange \<times> 'x" where
  "Init_sources connect thisNode connsMap p [] ex x = (None, ex, x)"
| "Init_sources connect thisNode connsMap p (n # ns) ex x =
     (if n = thisNode then
        Init_sources connect thisNode connsMap p ns (ex\<lparr>decs := decs ex @ [ScDecoder p]\<rparr>) x
      else
        let msg = ''THIS '' @ thisNode @ '' OTHER '' @ n
        in (case connsMap n of
              Some conn \<Rightarrow>
                Init_sources connect thisNode connsMap p ns
                  (ex\<lparr>decs := decs ex @ [DbgDecoder conn msg]\<rparr>) x
            | None \<Rightarrow>
                (case connect n (UID ex) x of
                   (Inl err, x') \<Rightarrow> (Some err, ex, x')
                 | (Inr conn, x') \<Rightarrow>
                     Init_sources connect thisNode connsMap p ns
                       (ex\<lparr>conns := conns ex @ [ConnCloser conn],
                           decs := decs ex @ [DbgDecoder conn msg]\<rparr>) x')))"

definition targetNodes :: "('e, 'k, 'c) exchange \<Rightarrow> string list \<Rightarrow> string \<Rightarrow> string list" where
  "targetNodes ex allNodes masterNode =
     (if SendTo ex = sendGather then [masterNode] else allNodes)"

text \<open>
  \<open>Init\<close>: the returned error, the exchange, the short-circuits allocated and the
  distributer after the call.
\<close>

definition Init ::
  "(string \<Rightarrow> string \<Rightarrow> 'x \<Rightarrow> (error + 'c) \<times> 'x) \<Rightarrow> 'x ctx \<Rightarrow>
   ('c encoder, 'c decoder, 'c closer) exchange \<Rightarrow> 'd shortCircuit list \<Rightarrow>
   (error option \<times> ('c encoder, 'c decoder, 'c closer) exchange \<times> 'd shortCircuit list \<times> 'x) go"
  where
  "Init connect ct ex scs =
     (case AllNodes ct of
        None \<Rightarrow> Panics
      | Some allNodes \<Rightarrow>
     (case ThisNode ct of
        None \<Rightarrow> Panics
      | Some thisNode \<Rightarrow>
     (case MasterNode ct of
        None \<Rightarrow> Panics
      | Some masterNode \<Rightarrow>
     (case Distributer ct of
        None \<Rightarrow> Panics
      | Some dist \<Rightarrow>
     (case Init_targets connect thisNode (targetNodes ex allNodes masterNode)
             ex Map.empty None scs dist of
        (Some err, ex1, connsMap, sc, scs1, dist1) \<Rightarrow> Returns (Some err, ex1, scs1, dist1)
      | (None, ex1, connsMap, None, scs1, dist1) \<Rightarrow> Returns (None, ex1, scs1, dist1)
      | (None, ex1, connsMap, Some p, scs1, dist1) \<Rightarrow>
          (case Init_sources connect thisNode connsMap p allNodes ex1 dist1 of
             (err, ex2, dist2) \<Rightarrow> Returns (err, ex2, scs1, dist2)))))))"

text \<open>
  What \<open>Run\<close> sends on \<open>out\<close>: nothing when \<open>Init\<close> fails (\<open>Run\<close> returns before it
  starts the receiving task), and otherwise what the receiving task sends, on the
  exchange \<open>Init\<close> left. The decoders' method is the parameter \<open>decode\<close>, over a world
  made of the short-circuits and the state \<open>'n\<close> of the connections.
\<close>

definition Run_out ::
  "(string \<Rightarrow> string \<Rightarrow> 'x \<Rightarrow> (error + 'c) \<times> 'x) \<Rightarrow>
   ('c decoder \<Rightarrow> 'd dataReq \<Rightarrow> 'd shortCircuit list \<times> 'n \<Rightarrow>
      (error option \<times> 'd dataReq \<times> 'd shortCircuit list \<times> 'n) go) \<Rightarrow>
   'x ctx \<Rightarrow> ('c encoder, 'c decoder, 'c closer) exchange \<Rightarrow> 'd shortCircuit list \<Rightarrow> 'n \<Rightarrow>
   'd option list go option" where
  "Run_out connect decode ct ex scs net =
     (case Init connect ct ex scs of
        Blocks \<Rightarrow> Some Blocks
      | Panics \<Rightarrow> Some Panics
      | Returns (Some err, ex1, scs1, dist1) \<Rightarrow> Some (Returns [])
      | Returns (None, ex1, scs1, dist1) \<Rightarrow>
          (case Run_receive decode ex1 (scs1, net) [] of
             None \<Rightarrow> None
           | Some Blocks \<Rightarrow> Some Blocks
           | Some Panics \<Rightarrow> Some Panics
           | Some (Returns (out, err, ex2, w2)) \<Rightarrow> Some (Returns out)))"

section \<open>distribute.go\<close>

subsection \<open>Null-terminated strings\<close>

text \<open>
  A Go string is a sequence of bytes, here a list of 8-bit characters; \<open>[]byte(s)\<close> is
  the same list. The conversion \<open>string(b)\<close> of a byte \<open>b\<close> yields the UTF-8 encoding
  of the code point \<open>b\<close>: one byte below 128 and two bytes from 128 on.
\<close>

definition string_of_byte :: "char \<Rightarrow> string" where
  "string_of_byte b =
     (let n = (of_char b :: nat)
      in if n < 128 then [b] else [char_of (192 + n div 64), char_of (128 + n mod 64)])"

text \<open>
  \<open>writeStr\<close>. The writer is an interface value: a handle \<open>'h\<close> and the parameter
  \<open>write :: 'h \<Rightarrow> string \<Rightarrow> 'n \<Rightarrow> error option \<times> 'n\<close> for its method \<open>Write\<close> (the count
  of bytes written, which \<open>writeStr\<close> drops, is left out).
\<close>

definition writeStr ::
  "('h \<Rightarrow> string \<Rightarrow> 'n \<Rightarrow> error option \<times> 'n) \<Rightarrow> 'h \<Rightarrow> string \<Rightarrow> 'n \<Rightarrow> error option \<times> 'n" where
  "writeStr write w s net = write w (s @ [CHR 0x00]) net"

text \<open>
  \<open>readStr\<close>. The reader's method \<open>Read\<close>, called on a buffer of one byte, is the
  parameter \<open>read :: 'h \<Rightarrow> 'n \<Rightarrow> char option \<times> error option \<times> 'n\<close>: the byte it stored
  into the buffer (\<open>None\<close> when it stored none), and the error. The loop carries the
  buffer \<open>b\<close> and the string \<open>s\<close> read so far; \<open>None\<close> is a loop that never ends.
\<close>

partial_function (option) readStr_loop ::
  "('h \<Rightarrow> 'n \<Rightarrow> char option \<times> error option \<times> 'n) \<Rightarrow> 'h \<Rightarrow> 'n \<Rightarrow> char \<Rightarrow> string \<Rightarrow>
   (string \<times> error option \<times> 'n) option" where
  "readStr_loop read r net b s =
     (case read r net of
        (stored, err, net') \<Rightarrow>
          let b' = (case stored of None \<Rightarrow> b | Some x \<Rightarrow> x)
          in if err \<noteq> None then Some (s, err, net')
             else if b' = CHR 0x00 then Some (s, None, net')
             else readStr_loop read r net' b' (s @ string_of_byte b'))"

definition readStr ::
  "('h \<Rightarrow> 'n \<Rightarrow> char option \<times> error option \<times> 'n) \<Rightarrow> 'h \<Rightarrow> 'n \<Rightarrow>
   (string \<times> error option \<times> 'n) option" where
  "readStr read r net = readStr_loop read r net (CHR 0x00) []"

text \<open>
  Byte streams in memory, as writers and as readers: the world maps a handle to the
  bytes written to it and not yet read. \<open>Write\<close> appends and never fails; \<open>Read\<close> takes
  the first byte, and yields \<open>io.EOF\<close> at the end of the stream.
\<close>

definition stream_Write :: "'h \<Rightarrow> string \<Rightarrow> ('h \<Rightarrow> string) \<Rightarrow> error option \<times> ('h \<Rightarrow> string)" where
  "stream_Write w p net = (None, net(w := net w @ p))"

definition stream_Read :: "'h \<Rightarrow> ('h \<Rightarrow> string) \<Rightarrow> char option \<times> error option \<times> ('h \<Rightarrow> string)" where
  "stream_Read r net =
     (case net r of
        [] \<Rightarrow> (None, Some EOF, net)
      | x # rest \<Rightarrow> (Some x, None, net(r := rest)))"

subsection \<open>The distributer\<close>

text \<open>
  The operator \<open><\<close> of Go on strings: the lexicographic order of the bytes.
\<close>

fun str_less :: "string \<Rightarrow> string \<Rightarrow> bool" where
  "str_less [] [] = False"
| "str_less [] (y # ys) = True"
| "str_less (x # xs) [] = False"
| "str_less (x # xs) (y # ys) =
     (if (of_char x :: nat) < of_char y then True
      else if (of_char y :: nat) < of_char x then False
      else str_less xs ys)"

text \<open>
  Times and durations are counted in nanoseconds, the unit of \<open>time.Duration\<close>;
  \<open>time_Second\<close> is \<open>time.Second\<close>.
\<close>

definition time_Second :: nat where
  "time_Second = 1000000000"

text \<open>
  \<open>type distributer struct\<close>: the node's address and \<open>connsMap\<close>. The fields
  \<open>listener\<close>, \<open>l\<close> and \<open>closeCh\<close> serve \<open>Start\<close>, \<open>Close\<close>, \<open>dial\<close> and the locking,
  which are not modelled; \<open>dial\<close> is a parameter of \<open>Connect\<close>.
  A channel of \<open>connsMap\<close> is unbuffered: a send on it blocks until a receive takes the
  value. The state of a channel is the list of the sends that tasks running \<open>Serve\<close>
  have begun on it and that no receive has taken: for each of them the time at which
  the send began and the connection it offers. A task leaves its send, and goes on,
  when a receive takes its offer out of the list. A send may begin while a \<open>Connect\<close>
  is already waiting on the channel: \<open>Connect\<close> is evaluated on the list of the sends
  that begin on the channel, before or after \<open>Connect\<close> starts to wait.
\<close>

record 'c distributer =
  addr :: string
  connsMap :: "string \<rightharpoonup> (nat \<times> 'c) list"

definition NewDistributer :: "string \<Rightarrow> 'c distributer" where
  "NewDistributer a = \<lparr>addr = a, connsMap = Map.empty\<rparr>"

text \<open>\<open>connCh\<close> returns the channel of key \<open>k\<close>, which it makes when there is none.\<close>

definition connCh :: "'c distributer \<Rightarrow> string \<Rightarrow> (nat \<times> 'c) list \<times> 'c distributer" where
  "connCh d k =
     (case connsMap d k of
        None \<Rightarrow> ([], d\<lparr>connsMap := (connsMap d)(k \<mapsto> [])\<rparr>)
      | Some ch \<Rightarrow> (ch, d))"

text \<open>
  The send that a receive on a channel meets first: the one that began first, and of
  those that began at the same time the one listed first.
\<close>

fun first_offer :: "(nat \<times> 'c) list \<Rightarrow> (nat \<times> 'c) option" where
  "first_offer [] = None"
| "first_offer (x # xs) =
     (case first_offer xs of
        None \<Rightarrow> Some x
      | Some y \<Rightarrow> if fst y < fst x then Some y else Some x)"

text \<open>
  \<open>Connect(addr, uid)\<close>; the argument \<open>addr\<close> is called \<open>peer\<close> here. The parameters are
  \<open>dial :: string \<Rightarrow> 'n \<Rightarrow> (error + 'c) \<times> 'n\<close> for \<open>d.dial\<close> and \<open>write\<close> for the method
  \<open>Write\<close> of a connection. On the waiting side \<open>now\<close> is the time at which
  \<open>time.NewTimer(time.Second)\<close> starts the timer, so that the timer fires at
  \<open>now + time_Second\<close>. The \<open>select\<close> waits for the first of its two cases to be ready:
  it receives the connection of the first send on the channel when that send began
  before the timer fires (at once when it began before \<open>now\<close>), and takes the case of
  the timer otherwise; when the send begins at the very time the timer fires, both cases
  are ready and \<open>pick\<close> is the choice \<open>select\<close> makes between them (\<open>True\<close> for the
  connection).
  The result is the returned pair \<open>(conn, err)\<close>, the time that \<open>select\<close> waited,
  counted from \<open>now\<close> (\<open>None\<close> on the dialing side, which has no \<open>select\<close>), the
  distributer and the network after the call.
\<close>

definition Connect ::
  "(string \<Rightarrow> 'n \<Rightarrow> (error + 'c) \<times> 'n) \<Rightarrow> ('c \<Rightarrow> string \<Rightarrow> 'n \<Rightarrow> error option \<times> 'n) \<Rightarrow>
   'c distributer \<Rightarrow> string \<Rightarrow> string \<Rightarrow> bool \<Rightarrow> nat \<Rightarrow> 'n \<Rightarrow>
   ('c option \<times> error option) \<times> nat option \<times> 'c distributer \<times> 'n" where
  "Connect dial write d peer uid pick now net =
     (let from = addr d
      in if str_less from peer then
           (case dial peer net of
              (Inl err, net1) \<Rightarrow> ((None, Some err), None, d, net1)
            | (Inr conn, net1) \<Rightarrow>
                (case writeStr write conn ''D'' net1 of
                   (Some err, net2) \<Rightarrow> ((Some conn, Some err), None, d, net2)
                 | (None, net2) \<Rightarrow>
                     (case writeStr write conn (addr d @ '':'' @ uid) net2 of
                        (Some err, net3) \<Rightarrow> ((Some conn, Some err), None, d, net3)
                      | (None, net3) \<Rightarrow> ((Some conn, None), None, d, net3))))
         else
           (case connCh d (peer @ '':'' @ uid) of
              (ch, d') \<Rightarrow>
                (case first_offer ch of
                   None \<Rightarrow>
                     ((None, Some (Errorf ''ep: connect timeout; no incoming conn'')),
                      Some time_Second, d', net)
                 | Some (t, conn) \<Rightarrow>
                     if t < now + time_Second \<or> (t = now + time_Second \<and> pick) then
                       ((Some conn, None), Some (t - now),
                        d'\<lparr>connsMap :=
                             (connsMap d')(peer @ '':'' @ uid \<mapsto> remove1 (t, conn) ch)\<rparr>,
                        net)
                     else
                       ((None, Some (Errorf ''ep: connect timeout; no incoming conn'')),
                        Some time_Second, d', net))))"

text \<open>
  Where a call of \<open>Serve\<close> stands: it has returned an error or nil, or it is blocked in
  the send \<open>d.connCh(key) <- conn\<close> of the branch \<open>"D"\<close>, which it leaves, to return nil,
  only when a \<open>Connect\<close> receives the connection, and never when none does.
\<close>

datatype served = Served "error option" | Sending string

text \<open>
  \<open>Serve(conn)\<close>. The parameters are \<open>read\<close> for the method \<open>Read\<close> of a connection,
  \<open>runX\<close> for the body of the branch \<open>"X"\<close> (decoding a runner from the connection and
  running it, which yields the returned error) and \<open>close\<close> for \<open>conn.Close\<close>; \<open>at\<close> is
  the time at which the call reaches its send in the branch \<open>"D"\<close>. There the call lists
  its send on the channel of the key and stays blocked in it: the result is
  \<open>Sending key\<close>, not a return. \<open>None\<close> is a call that never ends reading or running.
\<close>

definition Serve ::
  "('c \<Rightarrow> 'n \<Rightarrow> char option \<times> error option \<times> 'n) \<Rightarrow>
   ('c distributer \<Rightarrow> 'c \<Rightarrow> 'n \<Rightarrow> (error option \<times> 'c distributer \<times> 'n) option) \<Rightarrow>
   ('c \<Rightarrow> 'n \<Rightarrow> 'n) \<Rightarrow> 'c distributer \<Rightarrow> 'c \<Rightarrow> nat \<Rightarrow> 'n \<Rightarrow>
   (served \<times> 'c distributer \<times> 'n) option" where
  "Serve read runX close d conn at net =
     (case readStr read conn net of
        None \<Rightarrow> None
      | Some (typee, Some err, net1) \<Rightarrow> Some (Served (Some err), d, net1)
      | Some (typee, None, net1) \<Rightarrow>
          if typee = ''D'' then
            (case readStr read conn net1 of
               None \<Rightarrow> None
             | Some (key, Some err, net2) \<Rightarrow> Some (Served (Some err), d, net2)
             | Some (key, None, net2) \<Rightarrow>
                 (case connCh d key of
                    (ch, d') \<Rightarrow>
                      Some (Sending key,
                            d'\<lparr>connsMap := (connsMap d')(key \<mapsto> ch @ [(at, conn)])\<rparr>,
                            net2)))
          else if typee = ''X'' then
            (case runX d conn net1 of
               None \<Rightarrow> None
             | Some (err, d', net2) \<Rightarrow> Some (Served err, d', close conn net2))
          else
            Some (Served (Some (Errorf (''unrecognized connection type: '' @ typee))), d,
                  close conn net1))"

section \<open>Sequences of calls\<close>

text \<open>
  The claims speak of several calls in a row and of what an encoder has received. The
  functions of this section are not part of the package: they call its methods in
  sequence, as a test would, and record the calls that reach an encoder.
\<close>

text \<open>\<open>traced encode\<close> is \<open>encode\<close> on a world that also lists the calls that returned.\<close>

fun traced ::
  "('e \<Rightarrow> 'r \<Rightarrow> 'w \<Rightarrow> (error option \<times> 'w) go) \<Rightarrow>
   'e \<Rightarrow> 'r \<Rightarrow> 'w \<times> ('e \<times> 'r) list \<Rightarrow> (error option \<times> 'w \<times> ('e \<times> 'r) list) go" where
  "traced encode enc req (w, log) =
     (case encode enc req w of
        Blocks \<Rightarrow> Blocks
      | Panics \<Rightarrow> Panics
      | Returns (err, w') \<Rightarrow> Returns (err, (w', log @ [(enc, req)])))"

text \<open>One \<open>Send\<close> for each dataset of a list, whatever the calls return.\<close>

fun Send_seq ::
  "('e \<Rightarrow> 'd dataReq \<Rightarrow> 'w \<Rightarrow> (error option \<times> 'w) go) \<Rightarrow> ('e, 'k, 'c) exchange \<Rightarrow>
   'd option list \<Rightarrow> 'w \<Rightarrow> (error option list \<times> ('e, 'k, 'c) exchange \<times> 'w) go" where
  "Send_seq encode ex [] w = Returns ([], ex, w)"
| "Send_seq encode ex (data # rest) w =
     (case Send encode ex data w of
        Blocks \<Rightarrow> Blocks
      | Panics \<Rightarrow> Panics
      | Returns (err, ex', w') \<Rightarrow>
          (case Send_seq encode ex' rest w' of
             Blocks \<Rightarrow> Blocks
           | Panics \<Rightarrow> Panics
           | Returns (errs, ex'', w'') \<Rightarrow> Returns (err # errs, ex'', w'')))"

text \<open>One \<open>Encode\<close> on a short-circuit for each envelope of a list.\<close>

fun Encode_seq ::
  "'d shortCircuit \<Rightarrow> 'd dataReq list \<Rightarrow> (error option list \<times> 'd shortCircuit) go" where
  "Encode_seq sc [] = Returns ([], sc)"
| "Encode_seq sc (e # rest) =
     (case shortCircuit_Encode sc e of
        Blocks \<Rightarrow> Blocks
      | Panics \<Rightarrow> Panics
      | Returns (err, sc') \<Rightarrow>
          (case Encode_seq sc' rest of
             Blocks \<Rightarrow> Blocks
           | Panics \<Rightarrow> Panics
           | Returns (errs, sc'') \<Rightarrow> Returns (err # errs, sc'')))"

text \<open>
  \<open>n\<close> calls of \<open>Decode\<close> on a short-circuit, each with a new envelope \<open>&dataReq{}\<close> as
  in \<open>DecodeNext\<close>: the error and the envelope of every call.
\<close>

fun Decode_seq ::
  "'d shortCircuit \<Rightarrow> nat \<Rightarrow> ((error option \<times> 'd dataReq) list \<times> 'd shortCircuit) go" where
  "Decode_seq sc 0 = Returns ([], sc)"
| "Decode_seq sc (Suc n) =
     (case shortCircuit_Decode sc (DataReq NilValue) of
        Blocks \<Rightarrow> Blocks
      | Panics \<Rightarrow> Panics
      | Returns (err, req, sc') \<Rightarrow>
          (case Decode_seq sc' n of
             Blocks \<Rightarrow> Blocks
           | Panics \<Rightarrow> Panics
           | Returns (res, sc'') \<Rightarrow> Returns ((err, req) # res, sc'')))"

text \<open>
  A network in memory for the handshake of two distributers, in the way of the fake
  transports a test injects through the listener: \<open>dial_to c\<close> is a dialer that always
  connects and yields the connection \<open>c\<close>; \<open>no_bytes\<close> is the network in which no
  connection holds a byte; \<open>stream_Close\<close> drops the bytes of a connection; \<open>no_runner\<close>
  stands for the branch \<open>"X"\<close> of \<open>Serve\<close> when no runner ever arrives.
\<close>

definition dial_to :: "'c \<Rightarrow> string \<Rightarrow> 'n \<Rightarrow> (error + 'c) \<times> 'n" where
  "dial_to c a net = (Inr c, net)"

definition no_bytes :: "'h \<Rightarrow> string" where
  "no_bytes h = []"

definition stream_Close :: "'h \<Rightarrow> ('h \<Rightarrow> string) \<Rightarrow> ('h \<Rightarrow> string)" where
  "stream_Close c net = net(c := [])"

definition no_runner ::
  "'c distributer \<Rightarrow> 'c \<Rightarrow> 'n \<Rightarrow> (error option \<times> 'c distributer \<times> 'n) option" where
  "no_runner d c net = None"

text \<open>The strings made of bytes from 1 to 127: ASCII without the zero byte.\<close>

definition ascii_nonzero :: "string \<Rightarrow> bool" where
  "ascii_nonzero s = list_all (\<lambda>c. 0 < (of_char c :: nat) \<and> (of_char c :: nat) < 128) s"

section \<open>Properties of PassThrough\<close>

lemma passthrough_Run_append: "passthrough_Run inp out = (out @ inp, None)"
  by (induction inp arbitrary: out) simp_all

text \<open>
  Claim C1. For every finite sequence \<open>S\<close> of datasets delivered on the input stream,
  which is then closed, \<open>Run\<close> of \<open>passthrough\<close> sends exactly \<open>S\<close>, unchanged and in
  order, on its output stream and returns a nil error; \<open>Returns\<close> is the list of the
  single element \<open>Wildcard\<close>.
\<close>

theorem passthrough_identity:
  "passthrough_Run S [] = (S, None) \<and> passthrough_Returns Wildcard = [Wildcard]"
  by (simp add: passthrough_Run_append passthrough_Returns_def)

section \<open>Properties of the short-circuit\<close>

lemma sc_wf_new: "sc_wf newShortCircuit"
  by (simp add: sc_wf_def newShortCircuit_def make_chan_def)

lemma sc_wf_Close:
  "sc_wf sc \<Longrightarrow>
   \<exists>sc'. shortCircuit_Close sc = Returns (None, sc') \<and> sc_wf sc' \<and> Closed sc' \<and>
         buf (C sc') = buf (C sc) \<and> cap (C sc') = cap (C sc)"
  by (auto simp: sc_wf_def shortCircuit_Close_def chan_close_def)

lemma sc_wf_Encode:
  "sc_wf sc \<Longrightarrow> shortCircuit_Encode sc e = Returns (err, sc') \<Longrightarrow> sc_wf sc'"
  by (auto simp: sc_wf_def shortCircuit_Encode_def chan_send_def split: if_splits)

lemma sc_wf_Decode:
  "sc_wf sc \<Longrightarrow> shortCircuit_Decode sc req = Returns (err, req', sc') \<Longrightarrow>
   sc_wf sc' \<and> Closed sc' = Closed sc"
  by (auto simp: sc_wf_def shortCircuit_Decode_def chan_recv_def split: if_splits list.splits)

lemma Encode_closed:
  "Closed sc \<Longrightarrow> shortCircuit_Encode sc e = Returns (Some ErrClosedPipe, sc)"
  by (simp add: shortCircuit_Encode_def)

lemma Decode_closed_empty:
  "sc_wf sc \<Longrightarrow> Closed sc \<Longrightarrow> buf (C sc) = [] \<Longrightarrow>
   shortCircuit_Decode sc req = Returns (Some EOF, req, sc)"
  by (simp add: shortCircuit_Decode_def chan_recv_def sc_wf_def)

lemma Close_closed: "Closed sc \<Longrightarrow> shortCircuit_Close sc = Returns (None, sc)"
  by (simp add: shortCircuit_Close_def)

text \<open>
  Claim C8. For every short-circuit in a state the package can produce (\<open>sc_wf\<close> holds
  of \<open>newShortCircuit\<close> and is kept by the three methods, by the lemmas above): \<open>Close\<close>
  returns nil, and in the state it leaves every \<open>Encode\<close> fails with the closed-pipe
  error (and leaves the state as it is), \<open>Decode\<close> returns EOF when no envelope is
  pending, and a second \<open>Close\<close> returns nil and changes nothing.
\<close>

theorem shortCircuit_after_Close:
  assumes "sc_wf sc"
  shows "\<exists>sc'. shortCircuit_Close sc = Returns (None, sc') \<and>
           (\<forall>e. shortCircuit_Encode sc' e = Returns (Some ErrClosedPipe, sc')) \<and>
           (buf (C sc') = [] \<longrightarrow>
              (\<forall>req. shortCircuit_Decode sc' req = Returns (Some EOF, req, sc'))) \<and>
           shortCircuit_Close sc' = Returns (None, sc')"
proof -
  from sc_wf_Close [OF assms] obtain sc' where
    c: "shortCircuit_Close sc = Returns (None, sc')" and w: "sc_wf sc'" and cl: "Closed sc'"
    by blast
  show ?thesis
    using c w cl by (auto simp: Encode_closed Decode_closed_empty Close_closed)
qed

theorem shortCircuit_after_Close_witness:
  "sc_wf (newShortCircuit :: nat shortCircuit) \<and>
   (\<exists>sc'. shortCircuit_Close (newShortCircuit :: nat shortCircuit) = Returns (None, sc') \<and>
      shortCircuit_Encode sc' (DataReq (Dataset 7)) = Returns (Some ErrClosedPipe, sc') \<and>
      buf (C sc') = [] \<and>
      shortCircuit_Decode sc' (DataReq NilValue) = Returns (Some EOF, DataReq NilValue, sc') \<and>
      shortCircuit_Close sc' = Returns (None, sc'))"
proof -
  have w: "sc_wf (newShortCircuit :: nat shortCircuit)"
    by (simp add: sc_wf_def newShortCircuit_def make_chan_def)
  from shortCircuit_after_Close [OF w] obtain sc' where
    c: "shortCircuit_Close (newShortCircuit :: nat shortCircuit) = Returns (None, sc')" and
    e: "\<forall>e. shortCircuit_Encode sc' e = Returns (Some ErrClosedPipe, sc')" and
    d: "buf (C sc') = [] \<longrightarrow>
          (\<forall>req. shortCircuit_Decode sc' req = Returns (Some EOF, req, sc'))" and
    c2: "shortCircuit_Close sc' = Returns (None, sc')"
    by blast
  have b: "buf (C sc') = []"
    using c
    by (auto simp: shortCircuit_Close_def newShortCircuit_def make_chan_def chan_close_def)
  show ?thesis
    using w c e d c2 b by blast
qed

lemma Decode_seq_closed:
  "sc_wf sc \<Longrightarrow> Closed sc \<Longrightarrow>
   Decode_seq sc (length (buf (C sc)) + 1) =
     Returns (map (\<lambda>v. (None, DataReq (Payload v))) (buf (C sc)) @
                [(Some EOF, DataReq NilValue)],
              sc\<lparr>C := (C sc)\<lparr>buf := []\<rparr>\<rparr>)"
proof (induction "buf (C sc)" arbitrary: sc)
  case Nil
  then show ?case
    by (simp add: shortCircuit_Decode_def chan_recv_def sc_wf_def)
next
  case (Cons v rest)
  let ?sc1 = "sc\<lparr>C := (C sc)\<lparr>buf := rest\<rparr>\<rparr>"
  have d: "shortCircuit_Decode sc (DataReq NilValue) =
             Returns (None, DataReq (Payload v), ?sc1)"
    using Cons(2) [symmetric] by (simp add: shortCircuit_Decode_def chan_recv_def)
  have "rest = buf (C ?sc1)" "sc_wf ?sc1" "Closed ?sc1"
    using Cons(3,4) by (simp_all add: sc_wf_def)
  from Cons(1) [OF this] d Cons(2) [symmetric] show ?case
    by simp
qed

lemma Encode_seq_open:
  "\<not> Closed sc \<Longrightarrow> sc_wf sc \<Longrightarrow> length (buf (C sc)) + length es \<le> cap (C sc) \<Longrightarrow>
   Encode_seq sc es = Returns (map (\<lambda>e. None) es, sc\<lparr>C := (C sc)\<lparr>buf := buf (C sc) @ es\<rparr>\<rparr>)"
proof (induction es arbitrary: sc)
  case Nil
  then show ?case by simp
next
  case (Cons e es)
  let ?sc1 = "sc\<lparr>C := (C sc)\<lparr>buf := buf (C sc) @ [e]\<rparr>\<rparr>"
  have d: "shortCircuit_Encode sc e = Returns (None, ?sc1)"
    using Cons(2,3,4) by (simp add: shortCircuit_Encode_def chan_send_def sc_wf_def)
  have "\<not> Closed ?sc1" "sc_wf ?sc1" "length (buf (C ?sc1)) + length es \<le> cap (C ?sc1)"
    using Cons(2,3,4) by (simp_all add: sc_wf_def)
  from Cons(1) [OF this] d show ?case by simp
qed

text \<open>
  Claim C10. Envelopes encoded before \<open>Close\<close> are not lost. On an open short-circuit
  whose queue has room for the envelopes \<open>es\<close>: every \<open>Encode\<close> returns nil, \<open>Close\<close>
  returns nil, and the \<open>Decode\<close> calls made after the \<open>Close\<close> return the envelopes that
  were pending and then \<open>es\<close>, in the order they were encoded, with a nil error; only
  the call made once the queue is drained returns EOF.
\<close>

theorem shortCircuit_drain_after_Close:
  assumes "sc_wf sc" and "\<not> Closed sc" and "length (buf (C sc)) + length es \<le> cap (C sc)"
  shows "\<exists>sc1 sc2 sc3.
           Encode_seq sc es = Returns (map (\<lambda>e. None) es, sc1) \<and>
           shortCircuit_Close sc1 = Returns (None, sc2) \<and>
           Decode_seq sc2 (length (buf (C sc) @ es) + 1) =
             Returns (map (\<lambda>v. (None, v)) (buf (C sc) @ es) @
                        [(Some EOF, DataReq NilValue)], sc3) \<and>
           buf (C sc3) = []"
proof -
  let ?sc1 = "sc\<lparr>C := (C sc)\<lparr>buf := buf (C sc) @ es\<rparr>\<rparr>"
  have e: "Encode_seq sc es = Returns (map (\<lambda>e. None) es, ?sc1)"
    using assms by (simp add: Encode_seq_open)
  have w1: "sc_wf ?sc1"
    using assms(1) by (simp add: sc_wf_def)
  from sc_wf_Close [OF w1] obtain sc2 where
    c: "shortCircuit_Close ?sc1 = Returns (None, sc2)" and w2: "sc_wf sc2" and
    cl: "Closed sc2" and b: "buf (C sc2) = buf (C sc) @ es"
    by auto
  from Decode_seq_closed [OF w2 cl] b
  have "Decode_seq sc2 (length (buf (C sc) @ es) + 1) =
          Returns (map (\<lambda>v. (None, v)) (buf (C sc) @ es) @ [(Some EOF, DataReq NilValue)],
                   sc2\<lparr>C := (C sc2)\<lparr>buf := []\<rparr>\<rparr>)"
    by simp
  with e c show ?thesis
    by (intro exI [of _ ?sc1] exI [of _ sc2] exI [of _ "sc2\<lparr>C := (C sc2)\<lparr>buf := []\<rparr>\<rparr>"])
      simp
qed

theorem shortCircuit_drain_after_Close_witness:
  "sc_wf (newShortCircuit :: nat shortCircuit) \<and>
   \<not> Closed (newShortCircuit :: nat shortCircuit) \<and>
   length (buf (C (newShortCircuit :: nat shortCircuit))) +
     length [DataReq (Dataset (1::nat)), DataReq (Dataset 2)]
     \<le> cap (C (newShortCircuit :: nat shortCircuit)) \<and>
   (\<exists>sc1 sc2 sc3.
      Encode_seq newShortCircuit [DataReq (Dataset (1::nat)), DataReq (Dataset 2)] =
        Returns ([None, None], sc1) \<and>
      shortCircuit_Close sc1 = Returns (None, sc2) \<and>
      Decode_seq sc2 3 =
        Returns ([(None, DataReq (Dataset 1)), (None, DataReq (Dataset 2)),
                  (Some EOF, DataReq NilValue)], sc3))"
proof -
  have h: "sc_wf (newShortCircuit :: nat shortCircuit)"
    "\<not> Closed (newShortCircuit :: nat shortCircuit)"
    "length (buf (C (newShortCircuit :: nat shortCircuit))) +
       length [DataReq (Dataset (1::nat)), DataReq (Dataset 2)]
       \<le> cap (C (newShortCircuit :: nat shortCircuit))"
    by (simp_all add: sc_wf_def newShortCircuit_def make_chan_def)
  have b: "buf (C (newShortCircuit :: nat shortCircuit)) = []"
    by (simp add: newShortCircuit_def make_chan_def)
  show ?thesis
    using h shortCircuit_drain_after_Close [OF h]
    by (simp add: b numeral_3_eq_3 del: Encode_seq.simps Decode_seq.simps) blast
qed

section \<open>Properties of the null-terminated strings\<close>

lemma stream_Read_Cons: "net r = x # t \<Longrightarrow> stream_Read r net = (Some x, None, net(r := t))"
  by (simp add: stream_Read_def)

lemma stream_Read_Nil: "net r = [] \<Longrightarrow> stream_Read r net = (None, Some EOF, net)"
  by (simp add: stream_Read_def)

lemma readStr_loop_stream:
  "net r = t @ CHR 0x00 # rest \<Longrightarrow> CHR 0x00 \<notin> set t \<Longrightarrow>
   readStr_loop stream_Read r net b s =
     Some (s @ concat (map string_of_byte t), None, net(r := rest))"
proof (induction t arbitrary: net b s)
  case Nil
  then have "stream_Read r net = (Some (CHR 0x00), None, net(r := rest))"
    by (simp add: stream_Read_Cons)
  then show ?case
    by (subst readStr_loop.simps) simp
next
  case (Cons x t)
  let ?net1 = "net(r := t @ CHR 0x00 # rest)"
  have rd: "stream_Read r net = (Some x, None, ?net1)"
    using Cons.prems(1) by (simp add: stream_Read_Cons)
  have x0: "x \<noteq> CHR 0x00" and t0: "CHR 0x00 \<notin> set t"
    using Cons.prems(2) by auto
  have "readStr_loop stream_Read r ?net1 x (s @ string_of_byte x) =
          Some ((s @ string_of_byte x) @ concat (map string_of_byte t), None, ?net1(r := rest))"
    by (rule Cons.IH) (simp_all add: t0)
  moreover have "?net1(r := rest) = net(r := rest)"
    by simp
  ultimately
  have ih: "readStr_loop stream_Read r ?net1 x (s @ string_of_byte x) =
              Some (s @ string_of_byte x @ concat (map string_of_byte t), None, net(r := rest))"
    by (simp only: append_assoc)
  show ?case
    by (subst readStr_loop.simps) (simp add: rd x0 ih)
qed

lemma readStr_loop_stream_EOF:
  "net r = t \<Longrightarrow> CHR 0x00 \<notin> set t \<Longrightarrow>
   readStr_loop stream_Read r net b s =
     Some (s @ concat (map string_of_byte t), Some EOF, net(r := []))"
proof (induction t arbitrary: net b s)
  case Nil
  then have "stream_Read r net = (None, Some EOF, net)" and "net(r := []) = net"
    by (auto simp add: stream_Read_Nil)
  then show ?case
    by (subst readStr_loop.simps) simp
next
  case (Cons x t)
  let ?net1 = "net(r := t)"
  have rd: "stream_Read r net = (Some x, None, ?net1)"
    using Cons.prems(1) by (simp add: stream_Read_Cons)
  have x0: "x \<noteq> CHR 0x00" and t0: "CHR 0x00 \<notin> set t"
    using Cons.prems(2) by auto
  have "readStr_loop stream_Read r ?net1 x (s @ string_of_byte x) =
          Some ((s @ string_of_byte x) @ concat (map string_of_byte t), Some EOF, ?net1(r := []))"
    by (rule Cons.IH) (simp_all add: t0)
  moreover have "?net1(r := []) = net(r := [])"
    by simp
  ultimately
  have ih: "readStr_loop stream_Read r ?net1 x (s @ string_of_byte x) =
              Some (s @ string_of_byte x @ concat (map string_of_byte t), Some EOF, net(r := []))"
    by (simp only: append_assoc)
  show ?case
    by (subst readStr_loop.simps) (simp add: rd x0 ih)
qed

lemma concat_string_of_byte_ascii:
  "\<forall>c \<in> set t. (of_char c :: nat) < 128 \<Longrightarrow> concat (map string_of_byte t) = t"
  by (induction t) (simp_all add: string_of_byte_def)

lemma writeStr_stream: "writeStr stream_Write w s net = (None, net(w := net w @ s @ [CHR 0x00]))"
  by (simp add: writeStr_def stream_Write_def)

lemma readStr_writeStr_general:
  assumes "CHR 0x00 \<notin> set s" and "net c = []"
  shows "readStr stream_Read c (snd (writeStr stream_Write c s net)) =
           Some (concat (map string_of_byte s), None, net)"
proof -
  let ?net1 = "net(c := s @ [CHR 0x00])"
  have "readStr_loop stream_Read c ?net1 (CHR 0x00) [] =
          Some ([] @ concat (map string_of_byte s), None, ?net1(c := []))"
    by (rule readStr_loop_stream) (simp_all add: assms(1))
  then have "readStr_loop stream_Read c ?net1 (CHR 0x00) [] =
          Some (concat (map string_of_byte s), None, net(c := []))"
    by simp
  moreover have "net(c := []) = net"
    using assms(2) by auto
  ultimately show ?thesis
    using assms(2) by (simp add: readStr_def writeStr_stream)
qed

lemma string_of_byte_C3: "string_of_byte (CHR 0xC3) = [CHR 0xC3, CHR 0x83]"
  by code_simp
lemma string_of_byte_A9: "string_of_byte (CHR 0xA9) = [CHR 0xC2, CHR 0xA9]"
  by code_simp

lemma readStr_writeStr_ascii:
  assumes "CHR 0x00 \<notin> set s" and "\<forall>c \<in> set s. (of_char c :: nat) < 128" and "net c = []"
  shows "readStr stream_Read c (snd (writeStr stream_Write c s net)) = Some (s, None, net)"
  using readStr_writeStr_general [of s net c] concat_string_of_byte_ascii [OF assms(2)] assms
  by simp

text \<open>
  Claim C9. For every string \<open>s\<close> without a zero byte, \<open>readStr\<close> on the bytes that
  \<open>writeStr\<close> wrote for \<open>s\<close> should yield \<open>s\<close> again. The code does so for strings of
  bytes below 128 (lemma \<open>readStr_writeStr_ascii\<close>), and fails from 128 on: the loop
  appends \<open>string(b[0])\<close>, the UTF-8 encoding of the code point \<open>b[0]\<close>, which is two
  bytes. For the two bytes C3 A9 (the letter e with an acute accent), which hold no zero
  byte, \<open>readStr\<close> returns the four bytes C3 83 C2 A9.
\<close>

theorem readStr_writeStr_non_ascii:
  "readStr stream_Read () (snd (writeStr stream_Write () [CHR 0xC3, CHR 0xA9] (\<lambda>h. []))) =
     Some ([CHR 0xC3, CHR 0x83, CHR 0xC2, CHR 0xA9], None, (\<lambda>h. [])) \<and>
   [CHR 0xC3, CHR 0x83, CHR 0xC2, CHR 0xA9] \<noteq> [CHR 0xC3, CHR 0xA9]"
  using readStr_writeStr_general [of "[CHR 0xC3, CHR 0xA9]" "\<lambda>h. []" "()"]
  by (simp add: string_of_byte_C3 string_of_byte_A9)

section \<open>Properties of the exchange: sending\<close>

lemma hit_iff:
  fixes x N j :: nat
  assumes "j < N"
  shows "(x mod N = j) = ((x + (N - j)) mod N = 0)"
proof
  assume "x mod N = j"
  then have "(x + (N - j)) mod N = (j + (N - j)) mod N"
    by (metis mod_add_left_eq)
  also have "\<dots> = 0"
    using assms by simp
  finally show "(x + (N - j)) mod N = 0" .
next
  assume h: "(x + (N - j)) mod N = 0"
  let ?r = "x mod N"
  have r: "?r < N"
    using assms by simp
  have "(?r + (N - j)) mod N = 0"
    using h by (simp add: mod_add_left_eq)
  then have "N dvd ?r + (N - j)"
    by (simp add: mod_eq_0_iff_dvd)
  then obtain k where k: "?r + (N - j) = N * k" ..
  have pos: "0 < N * k"
    using k assms by arith
  have lt: "N * k < N * 2"
    using k assms r by arith
  have "k = 1"
    using pos lt by (cases k) auto
  with k assms show "x mod N = j"
    by simp
qed

lemma count_round_robin:
  fixes a N j :: nat
  assumes "j < N"
  shows "count_list (map (\<lambda>k. (a + k) mod N) [0..<M]) j + (a + (N - 1 - j)) div N =
           (a + (N - 1 - j) + M) div N"
proof (induction M)
  case 0
  show ?case by simp
next
  case (Suc M)
  have e: "a + (N - 1 - j) + Suc M = Suc (a + (N - 1 - j) + M)"
    by simp
  have s: "Suc (a + (N - 1 - j) + M) = (a + M) + (N - j)"
    using assms by arith
  have "(Suc (a + (N - 1 - j) + M) mod N = 0) = ((a + M) mod N = j)"
    unfolding s using hit_iff [OF assms, of "a + M"] by simp
  then show ?case
    using Suc unfolding e by (simp add: div_Suc)
qed

lemma window_floor_ceil:
  fixes u M N :: nat
  assumes "0 < N"
  shows "(u + M) div N - u div N = M div N \<or> (u + M) div N - u div N = (M + N - 1) div N"
proof -
  have d: "(u + M) div N = u div N + M div N + (u mod N + M mod N) div N"
    by (rule div_add1_eq)
  have "u mod N + M mod N < 2 * N"
    using assms by (simp add: add_strict_mono mult_2)
  then have "(u mod N + M mod N) div N < 2"
    by (rule less_mult_imp_div_less)
  then consider "(u mod N + M mod N) div N = 0" | "(u mod N + M mod N) div N = 1"
    by arith
  then show ?thesis
  proof cases
    case 1
    with d show ?thesis by simp
  next
    case 2
    have "M mod N \<noteq> 0"
    proof
      assume "M mod N = 0"
      with 2 assms show False by simp
    qed
    define q where "q = M div N"
    define r where "r = M mod N"
    have r1: "1 \<le> r"
      using \<open>M mod N \<noteq> 0\<close> by (simp add: r_def)
    have r2: "r < N"
      using assms by (simp add: r_def)
    have m: "M = N * q + r"
      by (simp add: q_def r_def)
    have sq: "N * Suc q = N * q + N" and ssq: "N * Suc (Suc q) = N * q + N + N"
      by simp_all
    have "(M + N - 1) div N = Suc q"
    proof (rule div_nat_eqI)
      show "N * Suc q \<le> M + N - 1"
        unfolding sq using m r1 by arith
      show "M + N - 1 < N * Suc (Suc q)"
        unfolding ssq using m r2 by arith
    qed
    then have "(M + N - 1) div N = Suc (M div N)"
      by (simp add: q_def)
    with d 2 show ?thesis by simp
  qed
qed

lemma count_list_nth_distinct:
  "distinct xs \<Longrightarrow> j < length xs \<Longrightarrow> \<forall>k \<in> set ks. f k < length xs \<Longrightarrow>
   count_list (map (\<lambda>k. xs ! f k) ks) (xs ! j) = count_list (map f ks) j"
  by (induction ks) (auto simp: nth_eq_iff_index_eq)

lemma Send_scatter:
  assumes "SendTo ex = sendScatter" and "encs ex \<noteq> []"
  shows "Send encode ex data w =
           (case encode (encs ex ! ((encsNext ex + 1) mod length (encs ex)))
                   (DataReq (iface_of_Dataset data)) w of
              Blocks \<Rightarrow> Blocks
            | Panics \<Rightarrow> Panics
            | Returns (err, w') \<Rightarrow>
                Returns (err, ex\<lparr>encsNext := (encsNext ex + 1) mod length (encs ex)\<rparr>, w'))"
  using assms by (simp add: Send_def EncodeNext_def Let_def cong: go.case_cong)

lemma Send_seq_traced:
  assumes "SendTo ex = sendScatter" and "encs ex \<noteq> []"
    and "Send_seq (traced encode) ex ds (w, log0) = Returns (errs, ex', (w', log))"
  shows "log = log0 @ map (\<lambda>k. (encs ex ! ((encsNext ex + 1 + k) mod length (encs ex)),
                                   DataReq (iface_of_Dataset (ds ! k)))) [0..<length ds]"
  using assms
proof (induction ds arbitrary: ex w log0 errs)
  case Nil
  then show ?case by simp
next
  case (Cons d ds)
  let ?N = "length (encs ex)"
  let ?i = "(encsNext ex + 1) mod ?N"
  let ?ex1 = "ex\<lparr>encsNext := ?i\<rparr>"
  from Cons.prems obtain err w1 errs1 where
    e: "encode (encs ex ! ?i) (DataReq (iface_of_Dataset d)) w = Returns (err, w1)" and
    r: "Send_seq (traced encode) ?ex1 ds (w1, log0 @ [(encs ex ! ?i, DataReq (iface_of_Dataset d))]) =
          Returns (errs1, ex', (w', log))"
    by (auto simp: Send_scatter split: go.splits)
  have "log = (log0 @ [(encs ex ! ?i, DataReq (iface_of_Dataset d))]) @
          map (\<lambda>k. (encs ?ex1 ! ((encsNext ?ex1 + 1 + k) mod length (encs ?ex1)),
                     DataReq (iface_of_Dataset (ds ! k)))) [0..<length ds]"
    by (rule Cons.IH [OF _ _ r]) (use Cons.prems in simp_all)
  moreover have "(?i + 1 + k) mod ?N = (encsNext ex + 1 + Suc k) mod ?N" for k
  proof -
    have "(?i + (1 + k)) mod ?N = (encsNext ex + 1 + (1 + k)) mod ?N"
      by (rule mod_add_left_eq)
    then show ?thesis
      by (simp only: add.assoc plus_1_eq_Suc)
  qed
  moreover have "[0..<length (d # ds)] = 0 # map Suc [0..<length ds]"
    by (simp add: upt_conv_Cons map_Suc_upt del: upt_Suc)
  ultimately show ?case
    by (simp add: comp_def del: upt_Suc)
qed

text \<open>
  Claim C2. In an exchange with the scatter policy and \<open>N \<ge> 1\<close> encoders, a call of
  \<open>Send\<close> advances the cursor \<open>encsNext\<close> by one modulo \<open>N\<close> and calls \<open>Encode\<close> on the
  encoder at the new cursor, and on no other. Hence, when \<open>M\<close> calls of \<open>Send\<close> in a row
  have returned, the encoders (distinct connections) have received the \<open>M\<close> datasets
  between them, and each encoder has received \<open>M div N\<close> of them or
  \<open>(M + N - 1) div N\<close> of them, the floor and the ceiling of \<open>M / N\<close>.
\<close>

theorem scatter_round_robin:
  assumes "SendTo ex = sendScatter" and "encs ex \<noteq> []"
  shows "Send encode ex data w =
           (case encode (encs ex ! ((encsNext ex + 1) mod length (encs ex)))
                   (DataReq (iface_of_Dataset data)) w of
              Blocks \<Rightarrow> Blocks
            | Panics \<Rightarrow> Panics
            | Returns (err, w') \<Rightarrow>
                Returns (err, ex\<lparr>encsNext := (encsNext ex + 1) mod length (encs ex)\<rparr>, w')) \<and>
         (distinct (encs ex) \<and> enc \<in> set (encs ex) \<and>
          Send_seq (traced encode) ex ds (w, []) = Returns (errs, ex', (w', log)) \<longrightarrow>
            map snd log = map (\<lambda>d. DataReq (iface_of_Dataset d)) ds \<and>
            (count_list (map fst log) enc = length ds div length (encs ex) \<or>
             count_list (map fst log) enc =
               (length ds + length (encs ex) - 1) div length (encs ex)))"
proof (intro conjI impI)
  show "Send encode ex data w =
           (case encode (encs ex ! ((encsNext ex + 1) mod length (encs ex)))
                   (DataReq (iface_of_Dataset data)) w of
              Blocks \<Rightarrow> Blocks
            | Panics \<Rightarrow> Panics
            | Returns (err, w') \<Rightarrow>
                Returns (err, ex\<lparr>encsNext := (encsNext ex + 1) mod length (encs ex)\<rparr>, w'))"
    by (rule Send_scatter [OF assms])
next
  assume h: "distinct (encs ex) \<and> enc \<in> set (encs ex) \<and>
          Send_seq (traced encode) ex ds (w, []) = Returns (errs, ex', (w', log))"
  let ?N = "length (encs ex)"
  let ?f = "\<lambda>k. (encsNext ex + 1 + k) mod ?N"
  have N: "0 < ?N"
    using assms(2) by simp
  from h have s: "Send_seq (traced encode) ex ds (w, []) = Returns (errs, ex', (w', log))"
    by simp
  have log: "log = map (\<lambda>k. (encs ex ! ?f k, DataReq (iface_of_Dataset (ds ! k)))) [0..<length ds]"
    using Send_seq_traced [OF assms s] by simp
  show "map snd log = map (\<lambda>d. DataReq (iface_of_Dataset d)) ds"
    unfolding log by (rule nth_equalityI) simp_all
  from h obtain j where j: "j < ?N" and enc: "enc = encs ex ! j"
    by (auto simp: in_set_conv_nth)
  have "map fst log = map (\<lambda>k. encs ex ! ?f k) [0..<length ds]"
    unfolding log by (simp add: comp_def)
  then have "count_list (map fst log) enc = count_list (map ?f [0..<length ds]) j"
    unfolding enc using h j N by (simp add: count_list_nth_distinct)
  moreover have "count_list (map ?f [0..<length ds]) j + (encsNext ex + 1 + (?N - 1 - j)) div ?N =
                   (encsNext ex + 1 + (?N - 1 - j) + length ds) div ?N"
    by (rule count_round_robin [OF j])
  moreover have "(encsNext ex + 1 + (?N - 1 - j) + length ds) div ?N - (encsNext ex + 1 + (?N - 1 - j)) div ?N = length ds div ?N
     \<or> (encsNext ex + 1 + (?N - 1 - j) + length ds) div ?N - (encsNext ex + 1 + (?N - 1 - j)) div ?N = (length ds + ?N - 1) div ?N"
    by (rule window_floor_ceil [OF N])
  ultimately show "count_list (map fst log) enc = length ds div ?N \<or>
             count_list (map fst log) enc = (length ds + ?N - 1) div ?N"
    by (metis add_diff_cancel_right')
qed

theorem scatter_round_robin_witness:
  "SendTo ((Scatter ''u'' :: (nat, unit, unit) exchange)\<lparr>encs := [0, 1]\<rparr>) = sendScatter \<and>
   encs ((Scatter ''u'' :: (nat, unit, unit) exchange)\<lparr>encs := [0, 1]\<rparr>) \<noteq> [] \<and>
   distinct (encs ((Scatter ''u'' :: (nat, unit, unit) exchange)\<lparr>encs := [0, 1]\<rparr>)) \<and>
   1 \<in> set (encs ((Scatter ''u'' :: (nat, unit, unit) exchange)\<lparr>encs := [0, 1]\<rparr>)) \<and>
   Send_seq (traced (\<lambda>e r w. Returns (None, w)))
       ((Scatter ''u'' :: (nat, unit, unit) exchange)\<lparr>encs := [0, 1]\<rparr>)
       [Some (10::nat), Some 20, Some 30] ((), []) =
     Returns ([None, None, None],
              (Scatter ''u'')\<lparr>encs := [0, 1], encsNext := 1\<rparr>,
              ((), [(1, DataReq (Dataset 10)), (0, DataReq (Dataset 20)), (1, DataReq (Dataset 30))])) \<and>
   (count_list (map fst [(1::nat, DataReq (Dataset (10::nat))), (0, DataReq (Dataset 20)), (1, DataReq (Dataset 30))]) 1 = 3 div 2 \<or>
    count_list (map fst [(1::nat, DataReq (Dataset (10::nat))), (0, DataReq (Dataset 20)), (1, DataReq (Dataset 30))]) 1 = (3 + 2 - 1) div 2)"
proof -
  let ?ex = "(Scatter ''u'' :: (nat, unit, unit) exchange)\<lparr>encs := [0, 1]\<rparr>"
  let ?log = "[(1::nat, DataReq (Dataset (10::nat))), (0, DataReq (Dataset 20)), (1, DataReq (Dataset 30))]"
  have a: "SendTo ?ex = sendScatter" and b: "encs ?ex \<noteq> []"
    by (simp_all add: Scatter_def new_exchange_def)
  have c: "distinct (encs ?ex)" and d: "1 \<in> set (encs ?ex)"
    by simp_all
  have s: "Send_seq (traced (\<lambda>e r w. Returns (None, w))) ?ex [Some (10::nat), Some 20, Some 30] ((), []) =
        Returns ([None, None, None], (Scatter ''u'')\<lparr>encs := [0, 1], encsNext := 1\<rparr>, ((), ?log))"
    by (simp add: Send_def EncodeNext_def Scatter_def new_exchange_def sendScatter_def iface_of_Dataset_def)
  from scatter_round_robin [OF a b, where enc = 1 and encode = "\<lambda>e r w. Returns (None, w)"
      and ds = "[Some 10, Some 20, Some 30]" and w = "()" and errs = "[None, None, None]"
      and ex' = "(Scatter ''u'')\<lparr>encs := [0, 1], encsNext := 1\<rparr>" and w' = "()"
      and log = ?log] c d s
  have "count_list (map fst ?log) 1 = 3 div 2 \<or> count_list (map fst ?log) 1 = (3 + 2 - 1) div 2"
    by simp
  with a b c d s show ?thesis
    by blast
qed

section \<open>Properties of the exchange: receiving\<close>

lemma DecodeNext_empty: "decs ex = [] \<Longrightarrow> DecodeNext decode ex w = Returns (None, Some EOF, ex, w)"
  by (subst DecodeNext.simps) simp

lemma remove_shorter: "i < length xs \<Longrightarrow> length (take i xs @ drop (i + 1) xs) < length xs"
  by simp

lemma DecodeNext_decode_EOF:
  assumes "decs ex \<noteq> []"
    and "decode (decs ex ! ((decsNext ex + 1) mod length (decs ex))) (DataReq NilValue) w = Returns (Some e, req, w')"
    and "Error e = ''EOF''"
  shows "DecodeNext decode ex w =
           DecodeNext decode (ex\<lparr>decs := take ((decsNext ex + 1) mod length (decs ex)) (decs ex) @
                                          drop ((decsNext ex + 1) mod length (decs ex) + 1) (decs ex)\<rparr>) w'"
  using assms by (subst DecodeNext.simps) (simp add: Let_def)

lemma DecodeNext_payload_EOF:
  assumes "decs ex \<noteq> []"
    and "decode (decs ex ! ((decsNext ex + 1) mod length (decs ex))) (DataReq NilValue) w = Returns (None, DataReq (Err e), w')"
    and "Error e = ''EOF''"
  shows "DecodeNext decode ex w =
           DecodeNext decode (ex\<lparr>decs := take ((decsNext ex + 1) mod length (decs ex)) (decs ex) @
                                          drop ((decsNext ex + 1) mod length (decs ex) + 1) (decs ex)\<rparr>) w'"
  using assms by (subst DecodeNext.simps) (simp add: Let_def)

lemma DecodeNext_Dataset:
  assumes "decs ex \<noteq> []"
    and "decode (decs ex ! ((decsNext ex + 1) mod length (decs ex))) (DataReq NilValue) w = Returns (None, DataReq (Dataset d), w')"
  shows "DecodeNext decode ex w =
           Returns (Some d, None, ex\<lparr>decsNext := (decsNext ex + 1) mod length (decs ex)\<rparr>, w')"
  using assms by (subst DecodeNext.simps) (simp add: Let_def)

lemma DecodeNext_error:
  assumes "decs ex \<noteq> []"
    and "decode (decs ex ! ((decsNext ex + 1) mod length (decs ex))) (DataReq NilValue) w = Returns (err0, req, w')"
    and "err0 = Some e \<or> (err0 = None \<and> Payload req = Err e)"
    and "Error e \<noteq> ''EOF''"
  shows "DecodeNext decode ex w = Returns (None, Some e, ex, w')"
  using assms by (subst DecodeNext.simps) (auto simp add: Let_def)

lemma DecodeNext_not_Blocks:
  assumes "\<forall>k req w. decode k req w \<noteq> Blocks"
  shows "DecodeNext decode ex w \<noteq> Blocks"
  using assms
proof (induction decode ex w rule: DecodeNext.induct)
  case (1 decode ex w)
  show ?case
  proof (cases "decs ex = []")
    case True
    then show ?thesis by (simp add: DecodeNext_empty)
  next
    case False
    show ?thesis
      apply (subst DecodeNext.simps)
      using False 1
      apply (auto simp: Let_def split: go.splits option.splits iface.splits if_splits)
      done
  qed
qed

text \<open>
  Claim C4. \<open>DecodeNext\<close> returns EOF when the list of decoders is empty. Otherwise it
  takes the decoder at the cursor advanced by one modulo the number of decoders and
  decodes one envelope from it. When the decode yields an error whose message is
  \<open>"EOF"\<close> (\<open>io.EOF\<close> itself among them), or yields no error and a payload that is an
  error whose message is \<open>"EOF"\<close>, the result is that of \<open>DecodeNext\<close> on the exchange
  without this decoder, whose list is strictly shorter; this is the measure by which
  the definition of \<open>DecodeNext\<close> above was shown to terminate. When the payload is a
  dataset, it is returned and the cursor is stored. If no decoder blocks, \<open>DecodeNext\<close>
  does not block.
\<close>

theorem DecodeNext_round_robin:
  "(decs ex = [] \<longrightarrow> DecodeNext decode ex w = Returns (None, Some EOF, ex, w)) \<and>
   (decs ex \<noteq> [] \<longrightarrow>
      (let i = (decsNext ex + 1) mod length (decs ex);
           rest = ex\<lparr>decs := take i (decs ex) @ drop (i + 1) (decs ex)\<rparr>
       in length (decs rest) < length (decs ex) \<and>
          (\<forall>e req w'. decode (decs ex ! i) (DataReq NilValue) w = Returns (Some e, req, w') \<and>
                      Error e = ''EOF'' \<longrightarrow>
                      DecodeNext decode ex w = DecodeNext decode rest w') \<and>
          (\<forall>e w'. decode (decs ex ! i) (DataReq NilValue) w = Returns (None, DataReq (Err e), w') \<and>
                  Error e = ''EOF'' \<longrightarrow>
                  DecodeNext decode ex w = DecodeNext decode rest w') \<and>
          (\<forall>d w'. decode (decs ex ! i) (DataReq NilValue) w = Returns (None, DataReq (Dataset d), w') \<longrightarrow>
                  DecodeNext decode ex w = Returns (Some d, None, ex\<lparr>decsNext := i\<rparr>, w')))) \<and>
   ((\<forall>k req w. decode k req w \<noteq> Blocks) \<longrightarrow> DecodeNext decode ex w \<noteq> Blocks)"
proof (intro conjI impI)
  show "DecodeNext decode ex w = Returns (None, Some EOF, ex, w)" if "decs ex = []"
    using that by (rule DecodeNext_empty)
  show "DecodeNext decode ex w \<noteq> Blocks" if "\<forall>k req w. decode k req w \<noteq> Blocks"
    using that by (rule DecodeNext_not_Blocks)
  show "let i = (decsNext ex + 1) mod length (decs ex);
           rest = ex\<lparr>decs := take i (decs ex) @ drop (i + 1) (decs ex)\<rparr>
       in length (decs rest) < length (decs ex) \<and>
          (\<forall>e req w'. decode (decs ex ! i) (DataReq NilValue) w = Returns (Some e, req, w') \<and>
                      Error e = ''EOF'' \<longrightarrow>
                      DecodeNext decode ex w = DecodeNext decode rest w') \<and>
          (\<forall>e w'. decode (decs ex ! i) (DataReq NilValue) w = Returns (None, DataReq (Err e), w') \<and>
                  Error e = ''EOF'' \<longrightarrow>
                  DecodeNext decode ex w = DecodeNext decode rest w') \<and>
          (\<forall>d w'. decode (decs ex ! i) (DataReq NilValue) w = Returns (None, DataReq (Dataset d), w') \<longrightarrow>
                  DecodeNext decode ex w = Returns (Some d, None, ex\<lparr>decsNext := i\<rparr>, w'))"
    if ne: "decs ex \<noteq> []"
  proof -
    have "(decsNext ex + 1) mod length (decs ex) < length (decs ex)"
      using ne by simp
    then have "length (take ((decsNext ex + 1) mod length (decs ex)) (decs ex) @
                 drop ((decsNext ex + 1) mod length (decs ex) + 1) (decs ex)) < length (decs ex)"
      by (rule remove_shorter)
    then have "length (decs (ex\<lparr>decs := take ((decsNext ex + 1) mod length (decs ex)) (decs ex) @
                 drop ((decsNext ex + 1) mod length (decs ex) + 1) (decs ex)\<rparr>)) < length (decs ex)"
      by simp
    then show ?thesis
      unfolding Let_def
    proof (intro conjI allI impI, goal_cases)
      case 1
      then show ?case .
    next
      case (2 e req w')
      then show ?case
        using DecodeNext_decode_EOF [OF ne, of decode w e req w'] by simp
    next
      case (3 e w')
      then show ?case
        using DecodeNext_payload_EOF [OF ne, of decode w e w'] by simp
    next
      case (4 d w')
      then show ?case
        using DecodeNext_Dataset [OF ne, of decode w d w'] by simp
    qed
  qed
qed


theorem DecodeNext_round_robin_witness:
  "DecodeNext (\<lambda>k req w. Returns (fst k, DataReq (snd k), w))
     ((new_exchange ''u'' sendScatter :: (unit, error option \<times> nat iface, unit) exchange)) () =
     Returns (None, Some EOF, new_exchange ''u'' sendScatter, ()) \<and>
   DecodeNext (\<lambda>k req w. Returns (fst k, DataReq (snd k), w))
     ((new_exchange ''u'' sendScatter :: (unit, error option \<times> nat iface, unit) exchange)
        \<lparr>decs := [(Some EOF, NilValue)]\<rparr>) () =
     Returns (None, Some EOF, new_exchange ''u'' sendScatter, ()) \<and>
   DecodeNext (\<lambda>k req w. Returns (fst k, DataReq (snd k), w))
     ((new_exchange ''u'' sendScatter :: (unit, error option \<times> nat iface, unit) exchange)
        \<lparr>decs := [(None, Err (ErrMsg ''EOF''))]\<rparr>) () =
     Returns (None, Some EOF, new_exchange ''u'' sendScatter, ()) \<and>
   DecodeNext (\<lambda>k req w. Returns (fst k, DataReq (snd k), w))
     ((new_exchange ''u'' sendScatter :: (unit, error option \<times> nat iface, unit) exchange)
        \<lparr>decs := [(None, Dataset 5)]\<rparr>) () =
     Returns (Some 5, None, (new_exchange ''u'' sendScatter)\<lparr>decs := [(None, Dataset 5)]\<rparr>, ()) \<and>
   DecodeNext (\<lambda>k req w. Returns (fst k, DataReq (snd k), w))
     ((new_exchange ''u'' sendScatter :: (unit, error option \<times> nat iface, unit) exchange)
        \<lparr>decs := [(None, Dataset 5)]\<rparr>) () \<noteq> Blocks"
proof -
  let ?dec = "\<lambda>(k :: error option \<times> nat iface) (req :: nat dataReq) (w :: unit).
                 Returns (fst k, DataReq (snd k), w)"
  let ?ex = "new_exchange ''u'' sendScatter :: (unit, error option \<times> nat iface, unit) exchange"
  note t0 = DecodeNext_round_robin [where ex = ?ex and decode = ?dec and w = "()"]
  note t1 = DecodeNext_round_robin [where ex = "?ex\<lparr>decs := [(Some EOF, NilValue)]\<rparr>"
      and decode = ?dec and w = "()"]
  note t2 = DecodeNext_round_robin [where ex = "?ex\<lparr>decs := [(None, Err (ErrMsg ''EOF''))]\<rparr>"
      and decode = ?dec and w = "()"]
  note t3 = DecodeNext_round_robin [where ex = "?ex\<lparr>decs := [(None, Dataset 5)]\<rparr>"
      and decode = ?dec and w = "()"]
  have e: "?ex\<lparr>decs := []\<rparr> = ?ex" "decs ?ex = []" "decsNext ?ex = 0"
    by (simp_all add: new_exchange_def)
  have r0: "DecodeNext ?dec ?ex () = Returns (None, Some EOF, ?ex, ())"
    using t0 e by simp
  have r1: "DecodeNext ?dec (?ex\<lparr>decs := [(Some EOF, NilValue)]\<rparr>) () = DecodeNext ?dec ?ex ()"
    using t1 e by (simp add: Let_def)
  have r2: "DecodeNext ?dec (?ex\<lparr>decs := [(None, Err (ErrMsg ''EOF''))]\<rparr>) () =
              DecodeNext ?dec ?ex ()"
    using t2 e by (simp add: Let_def)
  have r3: "DecodeNext ?dec (?ex\<lparr>decs := [(None, Dataset 5)]\<rparr>) () =
              Returns (Some 5, None, ?ex\<lparr>decs := [(None, Dataset 5)]\<rparr>, ())"
    using t3 e by (simp add: Let_def new_exchange_def)
  have r4: "DecodeNext ?dec (?ex\<lparr>decs := [(None, Dataset 5)]\<rparr>) () \<noteq> Blocks"
    using t3 by simp
  show ?thesis
    using r0 r1 r2 r3 r4 by simp
qed

section \<open>Properties of the exchange: errors sent to the peers\<close>

lemma EncodeAll_loop_traced:
  "EncodeAll_loop (traced encode) es req err (w, log0) = Returns (errOut, (w', log)) \<Longrightarrow>
   log = log0 @ map (\<lambda>enc. (enc, req)) es"
proof (induction es arbitrary: err w log0)
  case Nil
  then show ?case by simp
next
  case (Cons enc es)
  from Cons.prems obtain err1 w1 where
    r: "EncodeAll_loop (traced encode) es req (if err1 \<noteq> None then err1 else err)
          (w1, log0 @ [(enc, req)]) = Returns (errOut, (w', log))"
    by (auto split: go.splits)
  from Cons.IH [OF r] show ?case by simp
qed

text \<open>
  Claim C6. For every error \<open>e\<close> whose message is not \<open>"EOF"\<close>: \<open>EncodeAll\<close> called with
  \<open>e\<close> passes to every encoder of the exchange, once and in order, the envelope whose
  payload is \<open>&errMsg{e.Error()}\<close>; and on a peer whose next decoder yields this
  envelope, \<open>DecodeNext\<close> returns a nil dataset and the error \<open>&errMsg{e.Error()}\<close>, whose
  message is the message of \<open>e\<close>.
\<close>

theorem error_message_round_trip:
  assumes "Error e \<noteq> ''EOF''"
  shows "(EncodeAll (traced encode) ex (Err e) (w, []) = Returns (errOut, (w', log)) \<longrightarrow>
            log = map (\<lambda>enc. (enc, DataReq (Err (ErrMsg (Error e))))) (encs ex)) \<and>
         (decs peer \<noteq> [] \<and>
          decode (decs peer ! ((decsNext peer + 1) mod length (decs peer))) (DataReq NilValue) v =
            Returns (None, DataReq (Err (ErrMsg (Error e))), v') \<longrightarrow>
            DecodeNext decode peer v = Returns (None, Some (ErrMsg (Error e)), peer, v') \<and>
            Error (ErrMsg (Error e)) = Error e)"
proof (rule conjI; rule impI)
  assume "EncodeAll (traced encode) ex (Err e) (w, []) = Returns (errOut, (w', log))"
  then have "EncodeAll_loop (traced encode) (encs ex) (DataReq (Err (ErrMsg (Error e)))) None (w, []) =
               Returns (errOut, (w', log))"
    by (simp add: EncodeAll_def)
  from EncodeAll_loop_traced [OF this]
  show "log = map (\<lambda>enc. (enc, DataReq (Err (ErrMsg (Error e))))) (encs ex)"
    by simp
next
  assume h: "decs peer \<noteq> [] \<and>
          decode (decs peer ! ((decsNext peer + 1) mod length (decs peer))) (DataReq NilValue) v =
            Returns (None, DataReq (Err (ErrMsg (Error e))), v')"
  have "Error (ErrMsg (Error e)) \<noteq> ''EOF''"
    using assms by simp
  with h show "DecodeNext decode peer v = Returns (None, Some (ErrMsg (Error e)), peer, v') \<and>
            Error (ErrMsg (Error e)) = Error e"
    by (simp add: DecodeNext_error [where e = "ErrMsg (Error e)"])
qed

theorem error_message_round_trip_witness:
  "Error (Errorf ''boom'') \<noteq> ''EOF'' \<and>
   EncodeAll (traced (\<lambda>enc req w. Returns (None, w)))
     ((new_exchange ''u'' sendScatter :: (nat, nat iface, unit) exchange)\<lparr>encs := [0, 1]\<rparr>)
     (Err (Errorf ''boom'') :: nat iface) ((), []) =
     Returns (None, ((), [(0, DataReq (Err (ErrMsg ''boom''))), (1, DataReq (Err (ErrMsg ''boom'')))])) \<and>
   DecodeNext (\<lambda>k req w. Returns (None, DataReq k, w))
     ((new_exchange ''u'' sendScatter :: (nat, nat iface, unit) exchange)
        \<lparr>decs := [Err (ErrMsg ''boom'')]\<rparr>) () =
     Returns (None, Some (ErrMsg ''boom''),
              (new_exchange ''u'' sendScatter)\<lparr>decs := [Err (ErrMsg ''boom'')]\<rparr>, ())"
proof -
  let ?enc = "\<lambda>(enc :: nat) (req :: nat dataReq) (w :: unit). Returns (None :: error option, w)"
  let ?dec = "\<lambda>(k :: nat iface) (req :: nat dataReq) (w :: unit). Returns (None :: error option, DataReq k, w)"
  let ?ex = "(new_exchange ''u'' sendScatter :: (nat, nat iface, unit) exchange)\<lparr>encs := [0, 1]\<rparr>"
  let ?peer = "(new_exchange ''u'' sendScatter :: (nat, nat iface, unit) exchange)
                 \<lparr>decs := [Err (ErrMsg ''boom'')]\<rparr>"
  have a: "Error (Errorf ''boom'') \<noteq> ''EOF''"
    by simp
  have b: "EncodeAll (traced ?enc) ?ex (Err (Errorf ''boom'')) ((), []) =
     Returns (None, ((), [(0, DataReq (Err (ErrMsg ''boom''))), (1, DataReq (Err (ErrMsg ''boom'')))]))"
    by (simp add: EncodeAll_def Let_def)
  have c: "decs ?peer \<noteq> [] \<and>
       ?dec (decs ?peer ! ((decsNext ?peer + 1) mod length (decs ?peer))) (DataReq NilValue) () =
         Returns (None, DataReq (Err (ErrMsg (Error (Errorf ''boom'')))), ())"
    by simp
  from error_message_round_trip [OF a, where decode = ?dec and peer = ?peer and v = "()" and v' = "()"
      and encode = ?enc and ex = ?ex and w = "()"] c
  have "DecodeNext ?dec ?peer () = Returns (None, Some (ErrMsg ''boom''), ?peer, ())"
    by simp
  with a b show ?thesis
    by simp
qed

section \<open>Properties of the exchange: gather away from the master\<close>

lemma Run_receive_no_decoders:
  "decs ex = [] \<Longrightarrow> Run_receive decode ex w out = Some (Returns (out, None, ex, w))"
  by (subst Run_receive.simps) (simp add: Receive_def DecodeNext_empty)

lemma Init_gather_other_node:
  assumes "SendTo ex = sendGather"
    and "AllNodes ct = Some allNodes" and "ThisNode ct = Some thisNode"
    and "MasterNode ct = Some masterNode" and "Distributer ct = Some dist"
    and "thisNode \<noteq> masterNode"
  shows "Init connect ct ex scs =
           (case connect masterNode (UID ex) dist of
              (Inl err, dist') \<Rightarrow> Returns (Some err, ex, scs, dist')
            | (Inr conn, dist') \<Rightarrow>
                Returns (None,
                         ex\<lparr>conns := conns ex @ [ConnCloser conn],
                            encs := encs ex @
                              [DbgEncoder conn (''THIS '' @ thisNode @ '' OTHER '' @ masterNode)]\<rparr>,
                         scs, dist'))"
  using assms
  by (auto simp: Init_def targetNodes_def split: prod.splits sum.splits)

text \<open>
  Claim C3. In an exchange with the gather policy the list of targets is the master
  node alone. On a node whose address is not the master's, \<open>Init\<close> returns after at most
  one \<open>Connect\<close>, allocates no short-circuit (the list of short-circuits is unchanged
  and no short-circuit enters \<open>encs\<close>) and attaches no decoder; so with no decoder
  before \<open>Init\<close>, as in a new exchange, \<open>Run\<close> sends nothing on its output stream.
\<close>

theorem gather_other_node_no_output:
  assumes "SendTo ex = sendGather"
    and "AllNodes ct = Some allNodes" and "ThisNode ct = Some thisNode"
    and "MasterNode ct = Some masterNode" and "Distributer ct = Some dist"
    and "thisNode \<noteq> masterNode"
  shows "targetNodes ex allNodes masterNode = [masterNode] \<and>
         (\<exists>err ex' dist'.
            Init connect ct ex scs = Returns (err, ex', scs, dist') \<and>
            decs ex' = decs ex \<and>
            (\<forall>p. ScEncoder p \<in> set (encs ex') \<longrightarrow> ScEncoder p \<in> set (encs ex))) \<and>
         (decs ex = [] \<longrightarrow> Run_out connect decode ct ex scs net = Some (Returns []))"
proof (intro conjI)
  show "targetNodes ex allNodes masterNode = [masterNode]"
    using assms(1) by (simp add: targetNodes_def)
  note i = Init_gather_other_node [OF assms, of connect scs]
  show "\<exists>err ex' dist'.
            Init connect ct ex scs = Returns (err, ex', scs, dist') \<and>
            decs ex' = decs ex \<and>
            (\<forall>p. ScEncoder p \<in> set (encs ex') \<longrightarrow> ScEncoder p \<in> set (encs ex))"
    unfolding i by (auto split: prod.splits sum.splits)
  show "decs ex = [] \<longrightarrow> Run_out connect decode ct ex scs net = Some (Returns [])"
    unfolding Run_out_def i
    by (auto simp: Run_receive_no_decoders split: prod.splits sum.splits)
qed

theorem gather_other_node_no_output_witness:
  "SendTo (Gather ''u'' :: (nat encoder, nat decoder, nat closer) exchange) = sendGather \<and>
   ''B'' \<noteq> ''A'' \<and>
   decs (Gather ''u'' :: (nat encoder, nat decoder, nat closer) exchange) = [] \<and>
   targetNodes (Gather ''u'' :: (nat encoder, nat decoder, nat closer) exchange) [''A'', ''B''] ''A'' = [''A''] \<and>
   Run_out (\<lambda>n uid x. (Inr (7::nat), x)) (\<lambda>k req w. Blocks)
     \<lparr>AllNodes = Some [''A'', ''B''], ThisNode = Some ''B'', MasterNode = Some ''A'',
      Distributer = Some ()\<rparr>
     (Gather ''u'') ([] :: nat shortCircuit list) () = Some (Returns [])"
proof -
  let ?ex = "Gather ''u'' :: (nat encoder, nat decoder, nat closer) exchange"
  let ?ct = "\<lparr>AllNodes = Some [''A'', ''B''], ThisNode = Some ''B'', MasterNode = Some ''A'',
      Distributer = Some ()\<rparr>"
  have a: "SendTo ?ex = sendGather" and b: "decs ?ex = []"
    by (simp_all add: Gather_def new_exchange_def)
  have c: "AllNodes ?ct = Some [''A'', ''B'']" "ThisNode ?ct = Some ''B''"
    "MasterNode ?ct = Some ''A''" "Distributer ?ct = Some ()"
    by simp_all
  have d: "''B'' \<noteq> ''A''"
    by simp
  from gather_other_node_no_output [OF a c d, where connect = "\<lambda>n uid x. (Inr (7::nat), x)"
      and decode = "\<lambda>k req w. Blocks" and scs = "[] :: nat shortCircuit list" and net = "()"] a b d
  show ?thesis
    by simp
qed

section \<open>Properties of the distributer\<close>

lemma str_less_asym: "str_less a b \<Longrightarrow> \<not> str_less b a"
  by (induction a b rule: str_less.induct) (auto split: if_splits)

lemma str_less_total: "a \<noteq> b \<Longrightarrow> str_less a b \<or> str_less b a"
proof (induction a b rule: str_less.induct)
  case (4 x xs y ys)
  show ?case
  proof (cases "(of_char x :: nat) < of_char y \<or> (of_char y :: nat) < of_char x")
    case True
    then show ?thesis by auto
  next
    case False
    then have "(of_char x :: nat) = of_char y" by arith
    then have "x = y" by simp
    with 4 False show ?thesis by simp
  qed
qed simp_all

lemma of_char_zero_iff: "((of_char c :: nat) = 0) = (c = CHR 0x00)"
proof
  assume "(of_char c :: nat) = 0"
  then have "(of_char c :: nat) = of_char (CHR 0x00)" by simp
  then show "c = CHR 0x00" by (simp only: of_char_eq_iff)
next
  assume "c = CHR 0x00"
  then show "(of_char c :: nat) = 0" by simp
qed

lemma ascii_nonzero_iff:
  "ascii_nonzero s = (CHR 0x00 \<notin> set s \<and> (\<forall>c \<in> set s. (of_char c :: nat) < 128))"
proof -
  have "(0 < (of_char c :: nat)) = (c \<noteq> CHR 0x00)" for c
    using of_char_zero_iff [of c] by arith
  then show ?thesis
    unfolding ascii_nonzero_def list_all_iff by auto
qed

lemma readStr_stream:
  assumes "net r = t @ CHR 0x00 # rest" and "ascii_nonzero t"
  shows "readStr stream_Read r net = Some (t, None, net(r := rest))"
proof -
  from assms(2) have z: "CHR 0x00 \<notin> set t" and a: "\<forall>c \<in> set t. (of_char c :: nat) < 128"
    by (simp_all add: ascii_nonzero_iff)
  have "readStr_loop stream_Read r net (CHR 0x00) [] =
          Some ([] @ concat (map string_of_byte t), None, net(r := rest))"
    using assms(1) z by (rule readStr_loop_stream)
  then show ?thesis
    by (simp add: readStr_def concat_string_of_byte_ascii [OF a])
qed

lemma ascii_nonzero_D: "ascii_nonzero ''D''"
  by (simp add: ascii_nonzero_def)

lemma first_offer_in_set: "first_offer ch = Some x \<Longrightarrow> x \<in> set ch"
  by (induction ch arbitrary: x) (auto split: option.splits if_splits)

lemma Connect_dials:
  assumes "str_less (addr d) peer" and "dial peer net = (Inr c, net1)"
  shows "Connect dial stream_Write d peer uid pick now net =
           ((Some c, None), None, d,
            net1(c := net1 c @ ''D'' @ [CHR 0x00] @ (addr d @ '':'' @ uid) @ [CHR 0x00]))"
  using assms by (simp add: Connect_def writeStr_def stream_Write_def)

lemma connCh_absent:
  "connsMap d k = None \<or> connsMap d k = Some [] \<Longrightarrow>
   connCh d k = ([], d\<lparr>connsMap := (connsMap d)(k \<mapsto> [])\<rparr>)"
  by (auto simp: connCh_def fun_upd_idem)

lemma connCh_present: "connsMap d k = Some ch \<Longrightarrow> connCh d k = (ch, d)"
  by (simp add: connCh_def)

lemma Connect_receives:
  assumes "\<not> str_less (addr d) peer" and "connsMap d (peer @ '':'' @ uid) = Some [(t, c)]"
    and "t < now + time_Second"
  shows "Connect dial write d peer uid pick now net =
           ((Some c, None), Some (t - now),
            d\<lparr>connsMap := (connsMap d)(peer @ '':'' @ uid \<mapsto> [])\<rparr>, net)"
  using assms(1,3) connCh_present [OF assms(2)] by (simp add: Connect_def)

lemma Connect_timer_first:
  assumes "\<not> str_less (addr d) peer" and "connsMap d (peer @ '':'' @ uid) = Some ch"
    and "\<forall>x \<in> set ch. now + time_Second < fst x"
  shows "Connect dial write d peer uid pick now net =
           ((None, Some (Errorf ''ep: connect timeout; no incoming conn'')),
            Some time_Second, d, net)"
proof (cases "first_offer ch")
  case None
  then show ?thesis
    using assms(1) connCh_present [OF assms(2)] by (simp add: Connect_def)
next
  case (Some x)
  then have "now + time_Second < fst x"
    using assms(3) first_offer_in_set by blast
  then show ?thesis
    using assms(1) connCh_present [OF assms(2)] Some
    by (cases x) (simp add: Connect_def)
qed

lemma Serve_data:
  assumes "net c = ''D'' @ [CHR 0x00] @ key @ [CHR 0x00] @ rest" and "ascii_nonzero key"
  shows "Serve stream_Read runX close d c at net =
           Some (Sending key,
                 (snd (connCh d key))\<lparr>connsMap :=
                    (connsMap (snd (connCh d key)))(key \<mapsto> fst (connCh d key) @ [(at, c)])\<rparr>,
                 net(c := rest))"
proof -
  have 1: "readStr stream_Read c net = Some (''D'', None, net(c := key @ CHR 0x00 # rest))"
    using assms(1) by (intro readStr_stream) (simp_all add: ascii_nonzero_D)
  have 2: "readStr stream_Read c (net(c := key @ CHR 0x00 # rest)) =
             Some (key, None, (net(c := key @ CHR 0x00 # rest))(c := rest))"
    using assms(2) by (intro readStr_stream) simp_all
  show ?thesis
    by (simp add: Serve_def 1 2 split: prod.splits)
qed

text \<open>
  Claim C5, amended. Of two distinct addresses \<open>A\<close> and \<open>B\<close> one is less than the other
  in the order of the bytes. Let \<open>A\<close> be the lesser one, let \<open>A\<close> and the uid be made of
  ASCII bytes other than zero, let no other connection be offered on the channel of the
  key \<open>A + ":" + uid\<close> of the node \<open>B\<close>, and let \<open>Serve\<close> on \<open>B\<close> reach its send (at the
  time \<open>tS\<close>) before the timer of the waiting \<open>Connect\<close> on \<open>B\<close>, started at \<open>tB\<close>, fires
  one second later; \<open>Connect\<close> may have started to wait before or after the send.
  Then \<open>Connect(B, uid)\<close> on the node \<open>A\<close> dials and writes \<open>"D"\<close>, a zero byte,
  \<open>A + ":" + uid\<close> and a zero byte on the connection; \<open>Serve\<close> on the node \<open>B\<close> reads the
  tag and the key \<open>A + ":" + uid\<close>, offers the connection on the channel of that key and
  stays in its send; and \<open>Connect(A, uid)\<close> on the node \<open>B\<close> does not dial, waits on the
  channel of the same key and receives that same connection, which ends the send of
  \<open>Serve\<close>. (As the claim states it, for every uid, it fails: the theorem after the
  witness runs the three calls on a uid that holds a zero byte.)
\<close>

theorem rendezvous_same_connection:
  assumes "A \<noteq> B"
  shows "(str_less A B \<or> str_less B A) \<and>
         (str_less A B \<and> ascii_nonzero A \<and> ascii_nonzero uid \<and>
          addr dA = A \<and> addr dB = B \<and> dial B net = (Inr c, net1) \<and> net1 c = [] \<and>
          (connsMap dB (A @ '':'' @ uid) = None \<or> connsMap dB (A @ '':'' @ uid) = Some []) \<and>
          tS < tB + time_Second \<longrightarrow>
            (\<exists>net2 dB' dB''.
               Connect dial stream_Write dA B uid pick tA net = ((Some c, None), None, dA, net2) \<and>
               net2 c = ''D'' @ [CHR 0x00] @ (A @ '':'' @ uid) @ [CHR 0x00] \<and>
               Serve stream_Read runX close dB c tS net2 =
                 Some (Sending (A @ '':'' @ uid), dB', net2(c := [])) \<and>
               connsMap dB' (A @ '':'' @ uid) = Some [(tS, c)] \<and>
               \<not> str_less (addr dB') A \<and>
               Connect dial' write' dB' A uid pick' tB net3 =
                 ((Some c, None), Some (tS - tB), dB'', net3) \<and>
               connsMap dB'' (A @ '':'' @ uid) = Some []))"
proof (rule conjI; (rule impI)?)
  show "str_less A B \<or> str_less B A"
    using assms by (rule str_less_total)
next
  assume h: "str_less A B \<and> ascii_nonzero A \<and> ascii_nonzero uid \<and>
          addr dA = A \<and> addr dB = B \<and> dial B net = (Inr c, net1) \<and> net1 c = [] \<and>
          (connsMap dB (A @ '':'' @ uid) = None \<or> connsMap dB (A @ '':'' @ uid) = Some []) \<and>
          tS < tB + time_Second"
  let ?key = "A @ '':'' @ uid"
  let ?net2 = "net1(c := ''D'' @ [CHR 0x00] @ ?key @ [CHR 0x00])"
  let ?dB' = "dB\<lparr>connsMap := (connsMap dB)(?key \<mapsto> [(tS, c)])\<rparr>"
  let ?dB'' = "?dB'\<lparr>connsMap := (connsMap ?dB')(?key \<mapsto> [])\<rparr>"
  have k: "ascii_nonzero ?key"
    using h by (simp add: ascii_nonzero_def)
  have c1: "Connect dial stream_Write dA B uid pick tA net = ((Some c, None), None, dA, ?net2)"
    using h Connect_dials [of dA B dial net c net1 uid pick tA] by simp
  have ch: "connCh dB ?key = ([], dB\<lparr>connsMap := (connsMap dB)(?key \<mapsto> [])\<rparr>)"
    using h by (intro connCh_absent) simp
  have "?net2 c = ''D'' @ [CHR 0x00] @ ?key @ [CHR 0x00] @ []"
    by simp
  from Serve_data [where net = ?net2 and c = c and key = ?key and rest = "[]"
      and runX = runX and close = close and d = dB and at = tS, OF this k]
  have s: "Serve stream_Read runX close dB c tS ?net2 = Some (Sending ?key, ?dB', ?net2(c := []))"
    using ch by simp
  have nl: "\<not> str_less (addr ?dB') A"
    using h str_less_asym [of A B] by simp
  have o: "connsMap ?dB' (A @ '':'' @ uid) = Some [(tS, c)]"
    by simp
  have t: "tS < tB + time_Second"
    using h by simp
  have c2: "Connect dial' write' ?dB' A uid pick' tB net3 =
              ((Some c, None), Some (tS - tB), ?dB'', net3)"
    by (rule Connect_receives [OF nl o t])
  show "\<exists>net2 dB' dB''.
               Connect dial stream_Write dA B uid pick tA net = ((Some c, None), None, dA, net2) \<and>
               net2 c = ''D'' @ [CHR 0x00] @ (A @ '':'' @ uid) @ [CHR 0x00] \<and>
               Serve stream_Read runX close dB c tS net2 =
                 Some (Sending (A @ '':'' @ uid), dB', net2(c := [])) \<and>
               connsMap dB' (A @ '':'' @ uid) = Some [(tS, c)] \<and>
               \<not> str_less (addr dB') A \<and>
               Connect dial' write' dB' A uid pick' tB net3 =
                 ((Some c, None), Some (tS - tB), dB'', net3) \<and>
               connsMap dB'' (A @ '':'' @ uid) = Some []"
    using c1 s nl c2
    by (intro exI [of _ ?net2] exI [of _ ?dB'] exI [of _ ?dB'']) simp
qed

theorem rendezvous_same_connection_witness:
  "''A'' \<noteq> ''B'' \<and> str_less ''A'' ''B'' \<and> ascii_nonzero ''A'' \<and> ascii_nonzero ''u'' \<and>
   addr (NewDistributer ''A'' :: nat distributer) = ''A'' \<and>
   addr (NewDistributer ''B'' :: nat distributer) = ''B'' \<and>
   dial_to (0::nat) ''B'' (no_bytes :: nat \<Rightarrow> string) = (Inr 0, no_bytes) \<and>
   (no_bytes :: nat \<Rightarrow> string) 0 = [] \<and>
   connsMap (NewDistributer ''B'' :: nat distributer) (''A'' @ '':'' @ ''u'') = None \<and>
   (5::nat) < 0 + time_Second \<and>
   (\<exists>net2 dB' dB''.
      Connect (dial_to 0) stream_Write (NewDistributer ''A'') ''B'' ''u'' True 0 no_bytes =
        ((Some 0, None), None, NewDistributer ''A'', net2) \<and>
      net2 0 = ''D'' @ [CHR 0x00] @ ''A:u'' @ [CHR 0x00] \<and>
      Serve stream_Read no_runner stream_Close (NewDistributer ''B'') 0 5 net2 =
        Some (Sending ''A:u'', dB', net2(0 := [])) \<and>
      connsMap dB' ''A:u'' = Some [(5, 0)] \<and>
      Connect (dial_to 0) stream_Write dB' ''A'' ''u'' True 0 (no_bytes :: nat \<Rightarrow> string) =
        ((Some 0, None), Some 5, dB'', no_bytes) \<and>
      connsMap dB'' ''A:u'' = Some [])"
proof -
  have h: "str_less ''A'' ''B'' \<and> ascii_nonzero ''A'' \<and> ascii_nonzero ''u'' \<and>
   addr (NewDistributer ''A'' :: nat distributer) = ''A'' \<and>
   addr (NewDistributer ''B'' :: nat distributer) = ''B'' \<and>
   dial_to (0::nat) ''B'' (no_bytes :: nat \<Rightarrow> string) = (Inr 0, no_bytes) \<and>
   (no_bytes :: nat \<Rightarrow> string) 0 = [] \<and>
   (connsMap (NewDistributer ''B'' :: nat distributer) (''A'' @ '':'' @ ''u'') = None \<or>
    connsMap (NewDistributer ''B'' :: nat distributer) (''A'' @ '':'' @ ''u'') = Some []) \<and>
   (5::nat) < 0 + time_Second"
    by (simp add: ascii_nonzero_def NewDistributer_def dial_to_def no_bytes_def time_Second_def)
  have n: "''A'' \<noteq> ''B''"
    by simp
  from rendezvous_same_connection [OF n, where uid = "''u''" and dA = "NewDistributer ''A''"
      and dB = "NewDistributer ''B''" and dial = "dial_to 0" and net = no_bytes and c = 0
      and ?net1.0 = no_bytes and runX = no_runner and close = stream_Close
      and dial' = "dial_to 0" and write' = stream_Write and ?net3.0 = no_bytes
      and tS = 5 and tB = 0 and tA = 0 and pick = True and pick' = True] h
  have "\<exists>net2 dB' dB''.
      Connect (dial_to 0) stream_Write (NewDistributer ''A'') ''B'' ''u'' True 0 no_bytes =
        ((Some (0::nat), None), None, NewDistributer ''A'', net2) \<and>
      net2 0 = ''D'' @ [CHR 0x00] @ (''A'' @ '':'' @ ''u'') @ [CHR 0x00] \<and>
      Serve stream_Read no_runner stream_Close (NewDistributer ''B'') 0 5 net2 =
        Some (Sending (''A'' @ '':'' @ ''u''), dB', net2(0 := [])) \<and>
      connsMap dB' (''A'' @ '':'' @ ''u'') = Some [(5, 0)] \<and>
      \<not> str_less (addr dB') ''A'' \<and>
      Connect (dial_to 0) stream_Write dB' ''A'' ''u'' True 0 (no_bytes :: nat \<Rightarrow> string) =
        ((Some 0, None), Some (5 - 0), dB'', no_bytes) \<and>
      connsMap dB'' (''A'' @ '':'' @ ''u'') = Some []"
    by blast
  then show ?thesis
    using h n by (simp add: NewDistributer_def) blast
qed

theorem rendezvous_zero_byte_counterexample:
  "str_less ''A'' ''B'' \<and>
   Connect (dial_to (0::nat)) stream_Write (NewDistributer ''A'') ''B''
       [CHR ''a'', CHR 0x00, CHR ''b''] True 0 no_bytes =
     ((Some 0, None), None, NewDistributer ''A'',
      no_bytes(0 := ''D'' @ [CHR 0x00] @ ''A:a'' @ [CHR 0x00] @ ''b'' @ [CHR 0x00])) \<and>
   Serve stream_Read no_runner stream_Close (NewDistributer ''B'') (0::nat) 0
       (no_bytes(0 := ''D'' @ [CHR 0x00] @ ''A:a'' @ [CHR 0x00] @ ''b'' @ [CHR 0x00])) =
     Some (Sending ''A:a'',
           (NewDistributer ''B'')\<lparr>connsMap := (connsMap (NewDistributer ''B''))(''A:a'' \<mapsto> [(0, 0)])\<rparr>,
           no_bytes(0 := ''b'' @ [CHR 0x00])) \<and>
   fst (Connect (dial_to (0::nat)) stream_Write
          ((NewDistributer ''B'')\<lparr>connsMap := (connsMap (NewDistributer ''B''))(''A:a'' \<mapsto> [(0, 0)])\<rparr>)
          ''A'' [CHR ''a'', CHR 0x00, CHR ''b''] True 0 (no_bytes(0 := ''b'' @ [CHR 0x00]))) =
     (None, Some (Errorf ''ep: connect timeout; no incoming conn''))"
proof -
  let ?uid = "[CHR ''a'', CHR 0x00, CHR ''b'']"
  let ?net2 = "(no_bytes :: nat \<Rightarrow> string)(0 := ''D'' @ [CHR 0x00] @ ''A:a'' @ [CHR 0x00] @ ''b'' @ [CHR 0x00])"
  let ?dB' = "(NewDistributer ''B'' :: nat distributer)\<lparr>connsMap := (connsMap (NewDistributer ''B''))(''A:a'' \<mapsto> [(0, 0)])\<rparr>"
  have l: "str_less ''A'' ''B''"
    by simp
  have c1: "Connect (dial_to (0::nat)) stream_Write (NewDistributer ''A'') ''B'' ?uid True 0 no_bytes =
     ((Some 0, None), None, NewDistributer ''A'', ?net2)"
    using Connect_dials [where d = "NewDistributer ''A'' :: nat distributer" and peer = "''B''"
        and dial = "dial_to 0" and net = "no_bytes :: nat \<Rightarrow> string" and c = 0
        and ?net1.0 = no_bytes and uid = ?uid and pick = True and now = 0]
    by (simp add: NewDistributer_def dial_to_def no_bytes_def)
  have k: "ascii_nonzero ''A:a''"
    by (simp add: ascii_nonzero_def)
  have "?net2 0 = ''D'' @ [CHR 0x00] @ ''A:a'' @ [CHR 0x00] @ (''b'' @ [CHR 0x00])"
    by simp
  from Serve_data [where net = ?net2 and c = 0 and key = "''A:a''" and rest = "''b'' @ [CHR 0x00]"
      and runX = no_runner and close = stream_Close and d = "NewDistributer ''B''" and at = 0,
      OF this k]
  have s: "Serve stream_Read no_runner stream_Close (NewDistributer ''B'') (0::nat) 0 ?net2 =
     Some (Sending ''A:a'', ?dB', no_bytes(0 := ''b'' @ [CHR 0x00]))"
    by (simp add: connCh_def NewDistributer_def)
  have c2: "fst (Connect (dial_to (0::nat)) stream_Write ?dB' ''A'' ?uid True 0
                   (no_bytes(0 := ''b'' @ [CHR 0x00]))) =
     (None, Some (Errorf ''ep: connect timeout; no incoming conn''))"
    by (simp add: Connect_def connCh_def NewDistributer_def)
  show ?thesis
    using l c1 s c2 by simp
qed

text \<open>
  Claim C7, amended. When \<open>Connect(addr, uid)\<close> is called on the waiting side (the own
  address is not less than \<open>addr\<close>) and no connection is ever offered on the channel of
  the key \<open>addr + ":" + uid\<close>, \<open>Connect\<close> returns, after its \<open>select\<close> has waited one
  second (\<open>time_Second\<close>, that is \<open>10\<^sup>9\<close> nanoseconds), a nil connection and an error
  whose message is \<open>"ep: connect timeout; no incoming conn"\<close>. (The claim gives the
  message without its prefix \<open>"ep: "\<close>; see the theorem after the witness.)
\<close>

theorem Connect_timeout:
  assumes "\<not> str_less (addr d) peer"
    and "connsMap d (peer @ '':'' @ uid) = None \<or> connsMap d (peer @ '':'' @ uid) = Some []"
  shows "Connect dial write d peer uid pick now net =
           ((None, Some (Errorf ''ep: connect timeout; no incoming conn'')),
            Some time_Second,
            d\<lparr>connsMap := (connsMap d)(peer @ '':'' @ uid \<mapsto> [])\<rparr>, net) \<and>
         time_Second = 1000000000 \<and>
         Error (Errorf ''ep: connect timeout; no incoming conn'') =
           ''ep: connect timeout; no incoming conn''"
  using assms(1) connCh_absent [OF assms(2)] by (simp add: Connect_def time_Second_def)

theorem Connect_timeout_witness:
  "\<not> str_less (addr (NewDistributer ''B'' :: nat distributer)) ''A'' \<and>
   connsMap (NewDistributer ''B'' :: nat distributer) (''A'' @ '':'' @ ''u'') = None \<and>
   Connect (dial_to (0::nat)) stream_Write (NewDistributer ''B'') ''A'' ''u'' True 7
       (no_bytes :: nat \<Rightarrow> string) =
     ((None, Some (Errorf ''ep: connect timeout; no incoming conn'')), Some 1000000000,
      (NewDistributer ''B'')\<lparr>connsMap := (connsMap (NewDistributer ''B''))(''A'' @ '':'' @ ''u'' \<mapsto> [])\<rparr>,
      no_bytes)"
proof -
  have a: "\<not> str_less (addr (NewDistributer ''B'' :: nat distributer)) ''A''"
    by (simp add: NewDistributer_def)
  have b: "connsMap (NewDistributer ''B'' :: nat distributer) (''A'' @ '':'' @ ''u'') = None \<or>
           connsMap (NewDistributer ''B'' :: nat distributer) (''A'' @ '':'' @ ''u'') = Some []"
    by (simp add: NewDistributer_def)
  have b': "connsMap (NewDistributer ''B'' :: nat distributer) (''A'' @ '':'' @ ''u'') = None"
    by (simp add: NewDistributer_def)
  from Connect_timeout [OF a b, of "dial_to 0" stream_Write True 7 no_bytes]
  show ?thesis
    using a b' by simp
qed

theorem Connect_timeout_message_counterexample:
  "\<not> str_less (addr (NewDistributer ''B'' :: nat distributer)) ''A'' \<and>
   fst (Connect (dial_to (0::nat)) stream_Write (NewDistributer ''B'') ''A'' ''u'' True 0
          (no_bytes :: nat \<Rightarrow> string)) =
     (None, Some (Errorf ''ep: connect timeout; no incoming conn'')) \<and>
   Error (Errorf ''ep: connect timeout; no incoming conn'') \<noteq> ''connect timeout; no incoming conn''"
  by (simp add: Connect_def connCh_def NewDistributer_def)

end
